theory Spec2Isabelle
  imports Main "HOL-Library.AList" "HOL-Library.DAList" "HOL-Library.Sublist"
begin

section \<open>Values shared by both server variants\<close>

text \<open>
  The repository holds two session-keeping variants of the same Express server:
  the TypeScript server with one \<^verbatim>\<open>transports\<close> object whose values are
  \<^verbatim>\<open>{transport, toolkit, lastActivity}\<close> records, and the variant with the three
  objects \<^verbatim>\<open>sessions\<close>, \<^verbatim>\<open>toolkits\<close> and \<^verbatim>\<open>lastActivity\<close>.
  Both are embedded here, handler by handler, as functions from the server state to
  the new state and the reply.  A handler is one atomic step: every write to the
  session objects happens in a synchronous block (the only \<^verbatim>\<open>await\<close> before a
  write is \<^verbatim>\<open>toolkit.connect\<close>, and nothing of the request is registered by then).
\<close>

datatype json = JNull | JNum int | JStr string | JObj "(string \<times> json) list"

type_synonym headers = "(string \<times> string) list"

text \<open>\<^verbatim>\<open>res.setHeader(name, value)\<close>: replaces the header when it is already set.\<close>

definition setHeader :: "string \<Rightarrow> string \<Rightarrow> headers \<Rightarrow> headers" where
  "setHeader name v hs = AList.update name v hs"

text \<open>\<^verbatim>\<open>haystack.includes(needle)\<close> of JavaScript strings: a literal,
  case-sensitive search for a contiguous occurrence.\<close>

fun str_includes :: "string \<Rightarrow> string \<Rightarrow> bool" where
  "str_includes [] needle = (needle = [])"
| "str_includes (c # cs) needle = (prefix needle (c # cs) \<or> str_includes cs needle)"

text \<open>\<^verbatim>\<open>req.get(name) || ""\<close>: an absent header reads as the empty string.  The
  same function gives the truth value of an optional header: \<^verbatim>\<open>undefined\<close> and the
  empty string are the two falsy ones.\<close>

definition or_empty :: "string option \<Rightarrow> string" where
  "or_empty h = (case h of None \<Rightarrow> [] | Some s \<Rightarrow> s)"

text \<open>The error envelope every handler builds inline.\<close>

definition jsonrpc_error :: "int \<Rightarrow> string \<Rightarrow> json" where
  "jsonrpc_error code msg =
     JObj [(''jsonrpc'', JStr ''2.0''),
           (''error'', JObj [(''code'', JNum code), (''message'', JStr msg)]),
           (''id'', JNull)]"

datatype http_method = GET | DELETE | HEAD | POST

text \<open>The parts of a request the router reads.  The body is handed to the transport
  uninterpreted and is left out.  Express routes HEAD requests to the GET route, so the
  session handler can see the method HEAD.\<close>

record request =
  req_method :: http_method
  mcp_session_id :: "string option"
  content_type :: "string option"
  accept :: "string option"

text \<open>What a handler reads from outside the program while it runs: the environment
  variables, the clock, the UUID generator, and how the two SDK calls it awaits end.\<close>

datatype handle_outcome = Returns | Throws bool

record ambient =
  RECALL_PRIVATE_KEY :: "string option"
  RECALL_NETWORK :: "string option"
  date_now :: int
  random_uuid :: string
  connect_rejects :: bool
  handleRequest :: handle_outcome

text \<open>\<^verbatim>\<open>Throws sent\<close>: \<^verbatim>\<open>transport.handleRequest\<close> rejects, with
  \<^verbatim>\<open>res.headersSent\<close> equal to \<^verbatim>\<open>sent\<close> at that moment.\<close>

datatype thrown = Error string | TypeError

text \<open>A transport object: its identity and the session id captured by the
  \<^verbatim>\<open>onclose\<close> closure the router installs on it (\<^verbatim>\<open>None\<close>: no hook installed).\<close>

record transport_obj =
  t_ref :: nat
  onclose :: "string option"

record toolkit_obj =
  tk_ref :: nat
  tk_privateKey :: string
  tk_network :: string

text \<open>How a handler leaves the response: a JSON document it sent itself with a status,
  the request handed to a transport that finished it, or a fault that was only logged
  because the headers were already sent.\<close>

datatype answer = Json nat json | Handled transport_obj | Logged

datatype completion = Normal answer | Thrown thrown bool

record reply =
  set_headers :: headers
  answer :: answer

text \<open>The \<^verbatim>\<open>catch\<close> block of every handler: a 500 document unless headers were sent.\<close>

definition catch_fault :: "completion \<Rightarrow> answer" where
  "catch_fault c =
     (case c of
        Normal a \<Rightarrow> a
      | Thrown e sent \<Rightarrow>
          if \<not> sent then Json 500 (jsonrpc_error (- 32603) ''Internal server error'')
          else Logged)"

text \<open>The names every plain object inherits from \<^verbatim>\<open>Object.prototype\<close>.  A property
  read \<^verbatim>\<open>obj[name]\<close> on an object literal finds them when \<^verbatim>\<open>obj\<close> has no own
  property of that name; all of them are functions, or (for \<^verbatim>\<open>__proto__\<close>) the
  prototype object itself, hence truthy.\<close>

definition object_prototype_keys :: "string list" where
  "object_prototype_keys =
     [''constructor'', ''__proto__'', ''hasOwnProperty'', ''isPrototypeOf'',
      ''propertyIsEnumerable'', ''toLocaleString'', ''toString'', ''valueOf'',
      ''__defineGetter__'', ''__defineSetter__'', ''__lookupGetter__'',
      ''__lookupSetter__'']"

text \<open>\<^verbatim>\<open>randomUUID()\<close> returns 36 characters, lowercase hexadecimal digits and hyphens.
  An assignment \<^verbatim>\<open>obj[id] = v\<close> with such an id creates or overwrites an own property of
  the object, which is how registration is modelled; statements about a registration
  take the generated id to be of this form.\<close>

definition is_uuid :: "string \<Rightarrow> bool" where
  "is_uuid s = (length s = 36 \<and> list_all (\<lambda>c. c \<in> set ''0123456789abcdef-'') s)"

text \<open>\<^verbatim>\<open>createToolkit\<close>: throws when the private key is missing or empty; the network
  defaults to testnet.\<close>

definition createToolkit :: "ambient \<Rightarrow> thrown + (string \<times> string)" where
  "createToolkit a =
     (let privateKey = or_empty (RECALL_PRIVATE_KEY a);
          network = (if or_empty (RECALL_NETWORK a) = [] then ''testnet''
                     else or_empty (RECALL_NETWORK a))
      in if privateKey = []
         then Inl (Error ''Missing RECALL_PRIVATE_KEY environment variable'')
         else Inr (privateKey, network))"

section \<open>The server with one session object\<close>

record session_data =
  transport :: transport_obj
  toolkit :: toolkit_obj
  lastActivity :: int

text \<open>The state: the own properties of \<^verbatim>\<open>transports\<close> in insertion order (a
  JavaScript object never has two own properties of one name), the property
  \<^verbatim>\<open>lastActivity\<close> of \<^verbatim>\<open>Object.prototype\<close> (unset when the process starts), the
  next unused object identity, and the transports on which \<^verbatim>\<open>close()\<close> was called.\<close>

record server_state =
  transports :: "(string, session_data) alist"
  proto_lastActivity :: "int option"
  next_ref :: nat
  closed_transports :: "nat list"

definition init_state :: server_state where
  "init_state = \<lparr>transports = DAList.empty, proto_lastActivity = None, next_ref = 0,
                  closed_transports = []\<rparr>"

text \<open>The value of the expression \<^verbatim>\<open>transports[sessionId]\<close>.\<close>

datatype js_value = Undefined | Session session_data | ProtoObject | ProtoNumber int

definition js_get :: "server_state \<Rightarrow> string \<Rightarrow> js_value" where
  "js_get st k =
     (case DAList.lookup (transports st) k of
        Some sd \<Rightarrow> Session sd
      | None \<Rightarrow>
          if k \<in> set object_prototype_keys then ProtoObject
          else if k = ''lastActivity'' then
            (case proto_lastActivity st of None \<Rightarrow> Undefined | Some n \<Rightarrow> ProtoNumber n)
          else Undefined)"

fun truthy :: "js_value \<Rightarrow> bool" where
  "truthy Undefined = False"
| "truthy (Session sd) = True"
| "truthy ProtoObject = True"
| "truthy (ProtoNumber n) = (n \<noteq> 0)"

text \<open>\<^verbatim>\<open>sessionData.lastActivity = Date.now()\<close> for the value read under the key
  \<^verbatim>\<open>sid\<close>.  A session record is mutated in place, so the store shows the new time.
  A value inherited from the prototype takes the property itself: written to the
  prototype object when the key was \<^verbatim>\<open>__proto__\<close>, otherwise to a built-in function.
  The module is strict code, so the assignment to a number throws.\<close>

definition set_lastActivity ::
  "string \<Rightarrow> js_value \<Rightarrow> int \<Rightarrow> server_state \<Rightarrow> thrown + server_state" where
  "set_lastActivity sid v now st =
     (case v of
        Session sd \<Rightarrow>
          Inr (st\<lparr>transports := DAList.update sid (sd\<lparr>lastActivity := now\<rparr>) (transports st)\<rparr>)
      | ProtoObject \<Rightarrow>
          Inr (if sid = ''__proto__'' then st\<lparr>proto_lastActivity := Some now\<rparr> else st)
      | ProtoNumber n \<Rightarrow> Inl TypeError
      | Undefined \<Rightarrow> Inl TypeError)"

text \<open>\<^verbatim>\<open>sessionData.transport\<close>: undefined on anything but a session record.\<close>

definition transport_of :: "js_value \<Rightarrow> transport_obj option" where
  "transport_of v = (case v of Session sd \<Rightarrow> Some (transport sd) | _ \<Rightarrow> None)"

text \<open>\<^verbatim>\<open>delete transports[sessionId]\<close>: removes an own property, no effect otherwise.\<close>

definition js_delete :: "string \<Rightarrow> server_state \<Rightarrow> server_state" where
  "js_delete sid st = st\<lparr>transports := DAList.delete sid (transports st)\<rparr>"

text \<open>\<^verbatim>\<open>transport.close()\<close> of the SDK ends the transport's streams and calls its
  \<^verbatim>\<open>onclose\<close> hook; the hook the router installs deletes the captured session id.\<close>

definition transport_close :: "transport_obj \<Rightarrow> server_state \<Rightarrow> server_state" where
  "transport_close t st =
     (let st1 = st\<lparr>closed_transports := t_ref t # closed_transports st\<rparr>
      in case onclose t of None \<Rightarrow> st1 | Some sid \<Rightarrow> js_delete sid st1)"

text \<open>The Accept negotiation of the POST handler: the streaming headers when the
  Accept header includes \<^verbatim>\<open>text/event-stream\<close>, the JSON content type otherwise.\<close>

definition accept_negotiation :: "request \<Rightarrow> headers \<Rightarrow> headers" where
  "accept_negotiation req hs =
     (let acceptHeader = or_empty (accept req) in
      if str_includes acceptHeader ''text/event-stream''
      then setHeader ''Connection'' ''keep-alive''
             (setHeader ''Cache-Control'' ''no-cache''
               (setHeader ''Content-Type'' ''text/event-stream'' hs))
      else setHeader ''Content-Type'' ''application/json'' hs)"

text \<open>The Accept gate of the session handler, entered for the method GET: the 406
  answer, or the streaming headers to set.\<close>

definition accept_gate :: "request \<Rightarrow> answer + headers" where
  "accept_gate req =
     (let acceptHeader = or_empty (accept req) in
      if \<not> str_includes acceptHeader ''text/event-stream''
      then Inl (Json 406 (jsonrpc_error (- 32000) ''Accept header must include text/event-stream''))
      else Inr (setHeader ''Connection'' ''keep-alive''
                 (setHeader ''Cache-Control'' ''no-cache''
                   (setHeader ''Content-Type'' ''text/event-stream'' []))))"

text \<open>The shared tail of the POST handler: the content-type gate, the Accept
  negotiation and the delegation to \<^verbatim>\<open>handleRequest\<close> of the session's transport
  (\<^verbatim>\<open>None\<close>: the value at hand has no such method, and the call throws).\<close>

definition post_gate ::
  "ambient \<Rightarrow> request \<Rightarrow> transport_obj option \<Rightarrow> headers \<Rightarrow> headers \<times> completion" where
  "post_gate a req tr hs =
     (let contentType = or_empty (content_type req) in
      if \<not> str_includes contentType ''application/json''
      then (hs, Normal (Json 415 (jsonrpc_error (- 32000) ''Content-Type must be application/json'')))
      else
        let hs1 = accept_negotiation req hs
        in case tr of
             None \<Rightarrow> (hs1, Thrown TypeError False)
           | Some t \<Rightarrow>
               (case handleRequest a of
                  Returns \<Rightarrow> (hs1, Normal (Handled t))
                | Throws sent \<Rightarrow> (hs1, Thrown (Error ''handleRequest'') sent)))"

text \<open>The \<^verbatim>\<open>else\<close> branch of the POST handler: a new transport and toolkit, the
  registration under a fresh id, the response header and the \<^verbatim>\<open>onclose\<close> hook.
  The result is the state together with either what was thrown or the transport to
  delegate to and the headers set so far.\<close>

definition post_create ::
  "ambient \<Rightarrow> server_state \<Rightarrow> server_state \<times> (thrown + transport_obj option \<times> headers)" where
  "post_create a st =
     (let sessionId = random_uuid a;
          tr = \<lparr>t_ref = next_ref st, onclose = None\<rparr>;
          st1 = st\<lparr>next_ref := next_ref st + 1\<rparr>
      in case createToolkit a of
           Inl e \<Rightarrow> (st1, Inl e)
         | Inr (privateKey, network) \<Rightarrow>
             let tk = \<lparr>tk_ref = next_ref st1, tk_privateKey = privateKey, tk_network = network\<rparr>;
                 st2 = st1\<lparr>next_ref := next_ref st1 + 1\<rparr>
             in if connect_rejects a then (st2, Inl (Error ''connect''))
                else
                  let sessionData = \<lparr>transport = tr\<lparr>onclose := Some sessionId\<rparr>, toolkit = tk,
                                     lastActivity = date_now a\<rparr>;
                      st3 = st2\<lparr>transports := DAList.update sessionId sessionData (transports st2)\<rparr>;
                      hs = setHeader ''Mcp-Session-Id'' sessionId []
                  in (st3, Inr (Some (transport sessionData), hs)))"

text \<open>The \<^verbatim>\<open>if\<close> branch: the value found under the header's id is reused.\<close>

definition post_reuse ::
  "ambient \<Rightarrow> string \<Rightarrow> server_state \<Rightarrow> server_state \<times> (thrown + transport_obj option \<times> headers)" where
  "post_reuse a sessionId st =
     (let sessionData = js_get st sessionId in
      case set_lastActivity sessionId sessionData (date_now a) st of
        Inl e \<Rightarrow> (st, Inl e)
      | Inr st1 \<Rightarrow> (st1, Inr (transport_of sessionData, [])))"

text \<open>Session resolution, the first block of the \<^verbatim>\<open>try\<close> of \<^verbatim>\<open>app.post("/mcp")\<close>.
  The test is \<^verbatim>\<open>sessionId && transports[sessionId]\<close>: an absent or empty header is
  falsy.\<close>

definition post_resolve ::
  "ambient \<Rightarrow> request \<Rightarrow> server_state \<Rightarrow> server_state \<times> (thrown + transport_obj option \<times> headers)" where
  "post_resolve a req st =
     (let sessionId = or_empty (mcp_session_id req) in
      if sessionId \<noteq> [] \<and> truthy (js_get st sessionId)
      then post_reuse a sessionId st
      else post_create a st)"

text \<open>The whole handler: resolution, then the gate and the delegation, inside the
  \<^verbatim>\<open>try\<close> whose \<^verbatim>\<open>catch\<close> answers for anything thrown.\<close>

definition post_mcp :: "ambient \<Rightarrow> request \<Rightarrow> server_state \<Rightarrow> reply \<times> server_state" where
  "post_mcp a req st =
     (case post_resolve a req st of
        (st1, Inl e) \<Rightarrow> (\<lparr>set_headers = [], answer = catch_fault (Thrown e False)\<rparr>, st1)
      | (st1, Inr (tr, hs)) \<Rightarrow>
          (case post_gate a req tr hs of
             (hs1, c) \<Rightarrow> (\<lparr>set_headers = hs1, answer = catch_fault c\<rparr>, st1)))"

text \<open>\<^verbatim>\<open>handleSessionRequest\<close>, the handler of GET and DELETE: the \<^verbatim>\<open>try\<close> block.\<close>

definition handleSessionRequest_try ::
  "ambient \<Rightarrow> request \<Rightarrow> server_state \<Rightarrow> server_state \<times> headers \<times> completion" where
  "handleSessionRequest_try a req st =
     (let sessionId = or_empty (mcp_session_id req);
          sessionData = js_get st sessionId
      in
      if sessionId = [] \<or> \<not> truthy sessionData
      then (st, [], Normal (Json 400 (jsonrpc_error (- 32000) ''Invalid or missing session ID'')))
      else
        (case set_lastActivity sessionId sessionData (date_now a) st of
           Inl e \<Rightarrow> (st, [], Thrown e False)
         | Inr st1 \<Rightarrow>
             if req_method req = DELETE then
               (case transport_of sessionData of
                  None \<Rightarrow> (st1, [], Thrown TypeError False)
                | Some t \<Rightarrow>
                    (js_delete sessionId (transport_close t st1), [],
                     Normal (Json 200 (JObj [(''status'', JStr ''ok''),
                                             (''message'', JStr ''Session terminated'')]))))
             else
               (case (if req_method req = GET then accept_gate req else Inr []) of
                  Inl rejection \<Rightarrow> (st1, [], Normal rejection)
                | Inr hs \<Rightarrow>
                    (case transport_of sessionData of
                       None \<Rightarrow> (st1, hs, Thrown TypeError False)
                     | Some t \<Rightarrow>
                         (case handleRequest a of
                            Returns \<Rightarrow> (st1, hs, Normal (Handled t))
                          | Throws sent \<Rightarrow> (st1, hs, Thrown (Error ''handleRequest'') sent))))))"

definition handleSessionRequest ::
  "ambient \<Rightarrow> request \<Rightarrow> server_state \<Rightarrow> reply \<times> server_state" where
  "handleSessionRequest a req st =
     (case handleSessionRequest_try a req st of
        (st1, hs, c) \<Rightarrow> (\<lparr>set_headers = hs, answer = catch_fault c\<rparr>, st1))"

text \<open>The cleanup job: the two constants, and the loop over the snapshot
  \<^verbatim>\<open>Object.entries(transports)\<close>.\<close>

definition sessionTimeout :: int where
  "sessionTimeout = 30 * 60 * 1000"

definition sweep_interval :: int where
  "sweep_interval = 5 * 60 * 1000"

definition sweep_entry :: "int \<Rightarrow> string \<times> session_data \<Rightarrow> server_state \<Rightarrow> server_state" where
  "sweep_entry now entry st =
     (case entry of
        (sessionId, sessionData) \<Rightarrow>
          if now - lastActivity sessionData > sessionTimeout
          then js_delete sessionId (transport_close (transport sessionData) st)
          else st)"

definition sweep :: "int \<Rightarrow> server_state \<Rightarrow> server_state" where
  "sweep now st = fold (sweep_entry now) (DAList.impl_of (transports st)) st"

text \<open>The events of a run of the server: a POST, a GET, DELETE or HEAD on the session
  route, a tick of the cleanup timer, and a transport closing by itself, which runs the
  \<^verbatim>\<open>onclose\<close> hook installed on it.\<close>

datatype event =
  Post ambient request
| SessionReq ambient request
| Tick int
| Closed transport_obj

definition run_onclose :: "transport_obj \<Rightarrow> server_state \<Rightarrow> server_state" where
  "run_onclose t st = (case onclose t of None \<Rightarrow> st | Some sid \<Rightarrow> js_delete sid st)"

fun step :: "server_state \<Rightarrow> event \<Rightarrow> server_state" where
  "step st (Post a req) = snd (post_mcp a req st)"
| "step st (SessionReq a req) = snd (handleSessionRequest a req st)"
| "step st (Tick now) = sweep now st"
| "step st (Closed t) = run_onclose t st"

definition run :: "event list \<Rightarrow> server_state" where
  "run evs = foldl step init_state evs"

text \<open>The ids the generator has ready during a run, one for each POST; a POST that
  reuses a session does not consume its id.\<close>

fun generated :: "event list \<Rightarrow> string list" where
  "generated [] = []"
| "generated (Post a req # evs) = random_uuid a # generated evs"
| "generated (ev # evs) = generated evs"

section \<open>The server with three session objects\<close>

text \<open>The own properties of \<^verbatim>\<open>sessions\<close>, \<^verbatim>\<open>toolkits\<close> and \<^verbatim>\<open>lastActivity\<close>.\<close>

record maps_state =
  sessions :: "(string, transport_obj) alist"
  toolkits :: "(string, toolkit_obj) alist"
  lastActivity_m :: "(string, int) alist"
  next_ref_m :: nat
  closed_m :: "nat list"

definition init_maps :: maps_state where
  "init_maps = \<lparr>sessions = DAList.empty, toolkits = DAList.empty, lastActivity_m = DAList.empty,
                 next_ref_m = 0, closed_m = []\<rparr>"

text \<open>The value of \<^verbatim>\<open>sessions[sessionId]\<close>.\<close>

datatype js_transport = NoValue | Transport transport_obj | ProtoValue

definition sessions_get :: "maps_state \<Rightarrow> string \<Rightarrow> js_transport" where
  "sessions_get st k =
     (case DAList.lookup (sessions st) k of
        Some t \<Rightarrow> Transport t
      | None \<Rightarrow> if k \<in> set object_prototype_keys then ProtoValue else NoValue)"

definition as_transport :: "js_transport \<Rightarrow> transport_obj option" where
  "as_transport v = (case v of Transport t \<Rightarrow> Some t | _ \<Rightarrow> None)"

text \<open>\<^verbatim>\<open>lastActivity[sessionId] = Date.now()\<close>: creates or overwrites the own property;
  only the name \<^verbatim>\<open>__proto__\<close> goes to the prototype setter, which ignores a number.\<close>

definition touch_m :: "string \<Rightarrow> int \<Rightarrow> maps_state \<Rightarrow> maps_state" where
  "touch_m sid now st =
     (if sid = ''__proto__'' then st
      else st\<lparr>lastActivity_m := DAList.update sid now (lastActivity_m st)\<rparr>)"

text \<open>The three \<^verbatim>\<open>delete\<close> statements, as they stand together on every removal path.\<close>

definition delete_m :: "string \<Rightarrow> maps_state \<Rightarrow> maps_state" where
  "delete_m sid st =
     st\<lparr>sessions := DAList.delete sid (sessions st),
        toolkits := DAList.delete sid (toolkits st),
        lastActivity_m := DAList.delete sid (lastActivity_m st)\<rparr>"

definition transport_close_m :: "transport_obj \<Rightarrow> maps_state \<Rightarrow> maps_state" where
  "transport_close_m t st =
     (let st1 = st\<lparr>closed_m := t_ref t # closed_m st\<rparr>
      in case onclose t of None \<Rightarrow> st1 | Some sid \<Rightarrow> delete_m sid st1)"

definition post_create_m ::
  "ambient \<Rightarrow> maps_state \<Rightarrow> maps_state \<times> (thrown + transport_obj option \<times> headers)" where
  "post_create_m a st =
     (let newSessionId = random_uuid a;
          tr = \<lparr>t_ref = next_ref_m st, onclose = None\<rparr>;
          st1 = st\<lparr>next_ref_m := next_ref_m st + 1\<rparr>
      in case createToolkit a of
           Inl e \<Rightarrow> (st1, Inl e)
         | Inr (privateKey, network) \<Rightarrow>
             let tk = \<lparr>tk_ref = next_ref_m st1, tk_privateKey = privateKey, tk_network = network\<rparr>;
                 st2 = st1\<lparr>next_ref_m := next_ref_m st1 + 1\<rparr>
             in if connect_rejects a then (st2, Inl (Error ''connect''))
                else
                  let tr1 = tr\<lparr>onclose := Some newSessionId\<rparr>;
                      st3 = st2\<lparr>sessions := DAList.update newSessionId tr1 (sessions st2),
                                 toolkits := DAList.update newSessionId tk (toolkits st2),
                                 lastActivity_m :=
                                   DAList.update newSessionId (date_now a) (lastActivity_m st2)\<rparr>;
                      hs = setHeader ''Mcp-Session-Id'' newSessionId []
                  in (st3, Inr (Some tr1, hs)))"

definition post_resolve_m ::
  "ambient \<Rightarrow> request \<Rightarrow> maps_state \<Rightarrow> maps_state \<times> (thrown + transport_obj option \<times> headers)" where
  "post_resolve_m a req st =
     (let sessionId = or_empty (mcp_session_id req) in
      if sessionId \<noteq> [] \<and> sessions_get st sessionId \<noteq> NoValue
      then (touch_m sessionId (date_now a) st, Inr (as_transport (sessions_get st sessionId), []))
      else post_create_m a st)"

definition post_mcp_m :: "ambient \<Rightarrow> request \<Rightarrow> maps_state \<Rightarrow> reply \<times> maps_state" where
  "post_mcp_m a req st =
     (case post_resolve_m a req st of
        (st1, Inl e) \<Rightarrow> (\<lparr>set_headers = [], answer = catch_fault (Thrown e False)\<rparr>, st1)
      | (st1, Inr (tr, hs)) \<Rightarrow>
          (case post_gate a req tr hs of
             (hs1, c) \<Rightarrow> (\<lparr>set_headers = hs1, answer = catch_fault c\<rparr>, st1)))"

definition handleSessionRequest_m ::
  "ambient \<Rightarrow> request \<Rightarrow> maps_state \<Rightarrow> reply \<times> maps_state" where
  "handleSessionRequest_m a req st =
     (let sessionId = or_empty (mcp_session_id req);
          tr = as_transport (sessions_get st sessionId);
          st1 = touch_m sessionId (date_now a) st;
          r =
           (if sessionId = [] \<or> sessions_get st sessionId = NoValue
            then (st, [], Normal (Json 400 (jsonrpc_error (- 32000) ''Invalid or missing session ID'')))
            else if req_method req = DELETE then
              (case tr of
                 None \<Rightarrow> (st1, [], Thrown TypeError False)
               | Some t \<Rightarrow>
                   (delete_m sessionId (transport_close_m t st1), [],
                    Normal (Json 200 (JObj [(''status'', JStr ''ok'')]))))
            else
              (case (if req_method req = GET then accept_gate req else Inr []) of
                 Inl rejection \<Rightarrow> (st1, [], Normal rejection)
               | Inr hs \<Rightarrow>
                   (case tr of
                      None \<Rightarrow> (st1, hs, Thrown TypeError False)
                    | Some t \<Rightarrow>
                        (case handleRequest a of
                           Returns \<Rightarrow> (st1, hs, Normal (Handled t))
                         | Throws sent \<Rightarrow> (st1, hs, Thrown (Error ''handleRequest'') sent)))))
      in case r of (st2, hs, c) \<Rightarrow> (\<lparr>set_headers = hs, answer = catch_fault c\<rparr>, st2))"

text \<open>The cleanup job over \<^verbatim>\<open>Object.keys(sessions)\<close>.  The maps are read again at every
  id: \<^verbatim>\<open>now - lastActivity[id]\<close> is NaN, and the test false, when the time is not a
  number, and \<^verbatim>\<open>sessions[id].close()\<close> throws out of the loop when there is no
  transport to close.\<close>

definition sweep_id_m :: "int \<Rightarrow> string \<Rightarrow> thrown + maps_state \<Rightarrow> thrown + maps_state" where
  "sweep_id_m now sid r =
     (case r of
        Inl e \<Rightarrow> Inl e
      | Inr st \<Rightarrow>
          (case DAList.lookup (lastActivity_m st) sid of
             None \<Rightarrow> Inr st
           | Some t \<Rightarrow>
               if now - t > sessionTimeout then
                 (case DAList.lookup (sessions st) sid of
                    None \<Rightarrow> Inl TypeError
                  | Some tr \<Rightarrow> Inr (delete_m sid (transport_close_m tr st)))
               else Inr st))"

definition sweep_m :: "int \<Rightarrow> maps_state \<Rightarrow> thrown + maps_state" where
  "sweep_m now st = fold (sweep_id_m now) (map fst (DAList.impl_of (sessions st))) (Inr st)"

definition keys_of :: "('k, 'v) alist \<Rightarrow> 'k set" where
  "keys_of al = fst ` set (DAList.impl_of al)"

text \<open>The hook of every registered transport deletes the id the session is registered
  under: the registration and the hook use the same \<^verbatim>\<open>sessionId\<close>.\<close>

definition hooks_ok :: "server_state \<Rightarrow> bool" where
  "hooks_ok st =
     list_all (\<lambda>entry. onclose (transport (snd entry)) = Some (fst entry))
       (DAList.impl_of (transports st))"

text \<open>A session is idle at \<^verbatim>\<open>now\<close> when the time since its last activity exceeds the
  timeout: the test of the cleanup loop.\<close>

definition idle :: "int \<Rightarrow> session_data \<Rightarrow> bool" where
  "idle now sd = (now - lastActivity sd > sessionTimeout)"

text \<open>The same two notions for the variant with three objects: the hook of a registered
  transport deletes its own id, and an id is idle when its recorded time is a number
  that lies further back than the timeout.\<close>

definition hooks_ok_m :: "maps_state \<Rightarrow> bool" where
  "hooks_ok_m st =
     list_all (\<lambda>entry. onclose (snd entry) = Some (fst entry)) (DAList.impl_of (sessions st))"

definition idle_m :: "int \<Rightarrow> maps_state \<Rightarrow> string \<Rightarrow> bool" where
  "idle_m now st sid =
     (case DAList.lookup (lastActivity_m st) sid of
        None \<Rightarrow> False
      | Some t \<Rightarrow> now - t > sessionTimeout)"

text \<open>What is taken of the generator: it returns UUIDs, and never the same one twice.\<close>

definition generator_ok :: "event list \<Rightarrow> bool" where
  "generator_ok evs = (distinct (generated evs) \<and> list_all is_uuid (generated evs))"

text \<open>The three objects agree when they have the same own property names.\<close>

definition maps_consistent :: "maps_state \<Rightarrow> bool" where
  "maps_consistent st =
     (keys_of (sessions st) = keys_of (toolkits st)
      \<and> keys_of (toolkits st) = keys_of (lastActivity_m st))"

section \<open>Sample inputs\<close>

text \<open>Two ids as the generator makes them, an environment with every SDK call
  succeeding, and a request given by its method and the three headers read.\<close>

definition uuid1 :: string where
  "uuid1 = ''3f2b8c1e-7a4d-4e6f-9b0a-5c1d2e3f4a5b''"

definition uuid2 :: string where
  "uuid2 = ''9a8b7c6d-5e4f-4a3b-8c2d-1e0f9a8b7c6d''"

definition env :: "string option \<Rightarrow> int \<Rightarrow> string \<Rightarrow> ambient" where
  "env key now u =
     \<lparr>RECALL_PRIVATE_KEY = key, RECALL_NETWORK = None, date_now = now, random_uuid = u,
      connect_rejects = False, handleRequest = Returns\<rparr>"

definition http :: "http_method \<Rightarrow> string option \<Rightarrow> string option \<Rightarrow> string option \<Rightarrow> request" where
  "http m sid ct acc = \<lparr>req_method = m, mcp_session_id = sid, content_type = ct, accept = acc\<rparr>"

text \<open>The session a first POST at time \<^verbatim>\<open>now\<close> registers under \<^verbatim>\<open>u\<close> on a fresh
  server, and the state of that server afterwards.\<close>

definition session1 :: "string \<Rightarrow> int \<Rightarrow> session_data" where
  "session1 u now =
     \<lparr>transport = \<lparr>t_ref = 0, onclose = Some u\<rparr>,
      toolkit = \<lparr>tk_ref = 1, tk_privateKey = ''0xkey'', tk_network = ''testnet''\<rparr>,
      lastActivity = now\<rparr>"

definition state1 :: "string \<Rightarrow> int \<Rightarrow> server_state" where
  "state1 u now =
     \<lparr>transports = DAList.update u (session1 u now) DAList.empty, proto_lastActivity = None,
      next_ref = 2, closed_transports = []\<rparr>"

text \<open>The state after a second POST without a session header, at time \<^verbatim>\<open>now2\<close>, that
  registered a session under \<^verbatim>\<open>u2\<close>.\<close>

definition session2 :: "string \<Rightarrow> int \<Rightarrow> session_data" where
  "session2 u now =
     \<lparr>transport = \<lparr>t_ref = 2, onclose = Some u\<rparr>,
      toolkit = \<lparr>tk_ref = 3, tk_privateKey = ''0xkey'', tk_network = ''testnet''\<rparr>,
      lastActivity = now\<rparr>"

definition state2 :: "string \<Rightarrow> int \<Rightarrow> string \<Rightarrow> int \<Rightarrow> server_state" where
  "state2 u1 now1 u2 now2 =
     \<lparr>transports = DAList.update u2 (session2 u2 now2)
                      (DAList.update u1 (session1 u1 now1) DAList.empty),
      proto_lastActivity = None, next_ref = 4, closed_transports = []\<rparr>"

section \<open>Basic facts\<close>

lemma keys_of_empty: "keys_of DAList.empty = {}"
  by (simp add: keys_of_def empty.rep_eq)

lemma keys_of_update: "keys_of (DAList.update k v al) = insert k (keys_of al)"
  by (simp add: keys_of_def update.rep_eq AList.dom_update)

lemma keys_of_delete: "keys_of (DAList.delete k al) = keys_of al - {k}"
  by (auto simp: keys_of_def delete.rep_eq AList.delete_eq image_iff)

lemma lookup_None_iff: "DAList.lookup al k = None \<longleftrightarrow> k \<notin> keys_of al"
  by (simp add: keys_of_def lookup.rep_eq map_of_eq_None_iff)

lemma lookup_mem: "DAList.lookup al k = Some v \<longleftrightarrow> (k, v) \<in> set (DAList.impl_of al)"
  by (simp add: lookup.rep_eq)

lemma is_uuid_not_inherited:
  "is_uuid s \<Longrightarrow> s \<notin> set object_prototype_keys \<and> s \<noteq> ''lastActivity'' \<and> s \<noteq> []"
  by (auto simp: is_uuid_def object_prototype_keys_def)

lemma js_get_live: "DAList.lookup (transports st) sid = Some sd \<Longrightarrow> js_get st sid = Session sd"
  by (simp add: js_get_def)

lemma js_get_unknown:
  "DAList.lookup (transports st) sid = None \<Longrightarrow> sid \<notin> set object_prototype_keys \<Longrightarrow>
   sid \<noteq> ''lastActivity'' \<Longrightarrow> js_get st sid = Undefined"
  by (simp add: js_get_def)

lemma sessions_get_live:
  "DAList.lookup (sessions mt) sid = Some t \<Longrightarrow> sessions_get mt sid = Transport t"
  by (simp add: sessions_get_def)

lemma post_create_cases:
  "post_create a st =
     (case createToolkit a of
        Inl e \<Rightarrow> (st\<lparr>next_ref := next_ref st + 1\<rparr>, Inl e)
      | Inr (pk, nw) \<Rightarrow>
          if connect_rejects a then (st\<lparr>next_ref := next_ref st + 2\<rparr>, Inl (Error ''connect''))
          else (st\<lparr>next_ref := next_ref st + 2,
                   transports := DAList.update (random_uuid a)
                     \<lparr>transport = \<lparr>t_ref = next_ref st, onclose = Some (random_uuid a)\<rparr>,
                      toolkit = \<lparr>tk_ref = next_ref st + 1, tk_privateKey = pk, tk_network = nw\<rparr>,
                      lastActivity = date_now a\<rparr> (transports st)\<rparr>,
                Inr (Some \<lparr>t_ref = next_ref st, onclose = Some (random_uuid a)\<rparr>,
                     [(''Mcp-Session-Id'', random_uuid a)])))"
  by (simp add: post_create_def setHeader_def Let_def split: sum.splits prod.splits)

lemma post_create_m_cases:
  "post_create_m a st =
     (case createToolkit a of
        Inl e \<Rightarrow> (st\<lparr>next_ref_m := next_ref_m st + 1\<rparr>, Inl e)
      | Inr (pk, nw) \<Rightarrow>
          if connect_rejects a then (st\<lparr>next_ref_m := next_ref_m st + 2\<rparr>, Inl (Error ''connect''))
          else (st\<lparr>next_ref_m := next_ref_m st + 2,
                   sessions := DAList.update (random_uuid a)
                     \<lparr>t_ref = next_ref_m st, onclose = Some (random_uuid a)\<rparr> (sessions st),
                   toolkits := DAList.update (random_uuid a)
                     \<lparr>tk_ref = next_ref_m st + 1, tk_privateKey = pk, tk_network = nw\<rparr> (toolkits st),
                   lastActivity_m := DAList.update (random_uuid a) (date_now a) (lastActivity_m st)\<rparr>,
                Inr (Some \<lparr>t_ref = next_ref_m st, onclose = Some (random_uuid a)\<rparr>,
                     [(''Mcp-Session-Id'', random_uuid a)])))"
  by (simp add: post_create_m_def setHeader_def Let_def split: sum.splits prod.splits)

lemma post_gate_415:
  "\<not> str_includes (or_empty (content_type req)) ''application/json'' \<Longrightarrow>
   post_gate a req tr hs =
     (hs, Normal (Json 415 (jsonrpc_error (- 32000) ''Content-Type must be application/json'')))"
  by (simp add: post_gate_def accept_negotiation_def Let_def)

lemma post_mcp_resolved:
  "post_resolve a req st = (st1, Inr (tr, hs)) \<Longrightarrow>
   post_mcp a req st =
     (\<lparr>set_headers = fst (post_gate a req tr hs),
       answer = catch_fault (snd (post_gate a req tr hs))\<rparr>, st1)"
  by (simp add: post_mcp_def split: prod.splits)

lemma handleSessionRequest_unknown:
  assumes "js_get st (or_empty (mcp_session_id req)) = Undefined"
  shows "handleSessionRequest a req st =
           (\<lparr>set_headers = [],
             answer = Json 400 (jsonrpc_error (- 32000) ''Invalid or missing session ID'')\<rparr>, st)"
  using assms
  by (simp add: handleSessionRequest_def handleSessionRequest_try_def accept_gate_def catch_fault_def Let_def)

lemma handleSessionRequest_delete_live:
  assumes "req_method req = DELETE" and "mcp_session_id req = Some sid" and "sid \<noteq> []"
    and "DAList.lookup (transports st) sid = Some sd"
  shows "handleSessionRequest a req st =
           (\<lparr>set_headers = [],
             answer = Json 200 (JObj [(''status'', JStr ''ok''),
                                      (''message'', JStr ''Session terminated'')])\<rparr>,
            js_delete sid (transport_close (transport sd)
              (st\<lparr>transports := DAList.update sid (sd\<lparr>lastActivity := date_now a\<rparr>) (transports st)\<rparr>)))"
  using assms
  by (simp add: handleSessionRequest_def handleSessionRequest_try_def accept_gate_def js_get_live
      set_lastActivity_def transport_of_def or_empty_def catch_fault_def Let_def)

lemma transports_transport_close:
  "transports (transport_close t st) =
     (case onclose t of None \<Rightarrow> transports st | Some k \<Rightarrow> DAList.delete k (transports st))"
  by (simp add: transport_close_def js_delete_def Let_def split: option.splits)

lemma closed_transport_close:
  "closed_transports (transport_close t st) = t_ref t # closed_transports st"
  by (simp add: transport_close_def js_delete_def Let_def split: option.splits)

lemma sweep_entry_unfold:
  "sweep_entry now (k, sd) st =
     (if idle now sd then js_delete k (transport_close (transport sd) st) else st)"
  by (simp add: sweep_entry_def idle_def)

lemma run_snoc: "run (evs @ [ev]) = step (run evs) ev"
  by (simp add: run_def)

lemma run_append: "run (evs @ evs') = foldl step (run evs) evs'"
  by (simp add: run_def)

lemma generated_append: "generated (evs @ evs') = generated evs @ generated evs'"
  by (induction evs rule: generated.induct) simp_all

lemma sweep_m_thrown: "fold (sweep_id_m now) ks (Inl e) = Inl e"
  by (induction ks) (simp_all add: sweep_id_m_def)

section \<open>The content-type gate\<close>

text \<open>
  Claim C1 says that a POST with a non-JSON content type gets the 415 answer and leaves
  the store unchanged.  The gate stands after session resolution in both variants, so
  the store is as resolution left it.  On a fresh server, a POST with
  \<^verbatim>\<open>Content-Type: text/plain\<close> and no session header registers a session and then
  answers 415, with the new id in the \<^verbatim>\<open>Mcp-Session-Id\<close> header.
\<close>

theorem content_type_gate_counterexample:
  "\<not> str_includes (or_empty (content_type (http POST None (Some ''text/plain'') None)))
        ''application/json''
   \<and> DAList.lookup (transports init_state) uuid1 = None
   \<and> post_mcp (env (Some ''0xkey'') 1000 uuid1) (http POST None (Some ''text/plain'') None)
        init_state =
      (\<lparr>set_headers = [(''Mcp-Session-Id'', uuid1)],
        answer = Json 415 (JObj [(''jsonrpc'', JStr ''2.0''),
                   (''error'', JObj [(''code'', JNum (- 32000)),
                                     (''message'', JStr ''Content-Type must be application/json'')]),
                   (''id'', JNull)])\<rparr>,
       state1 uuid1 1000)
   \<and> DAList.lookup (transports (state1 uuid1 1000)) uuid1 = Some (session1 uuid1 1000)"
  by (simp add: post_mcp_def post_resolve_def post_create_def createToolkit_def or_empty_def
      post_gate_def accept_negotiation_def catch_fault_def jsonrpc_error_def setHeader_def init_state_def Let_def
      env_def http_def state1_def session1_def js_get_def uuid1_def object_prototype_keys_def)

text \<open>
  Claim C1 as amended.  For a POST whose content type does not include
  \<^verbatim>\<open>application/json\<close>, in either variant: when the header names a live session the
  answer is 415 with code -32000 and that session's activity time is set to the time of
  the request; when the request resolves to no session and provisioning succeeds, a new
  session is registered under the generated id, the id is set in \<^verbatim>\<open>Mcp-Session-Id\<close>
  and the answer is 415 with code -32000; when provisioning fails the answer is 500 with
  code -32603 and the store is unchanged.
\<close>

theorem content_type_gate_after_resolution:
  assumes gate: "\<not> str_includes (or_empty (content_type req)) ''application/json''"
  shows
   "(mcp_session_id req = Some sid \<and> sid \<noteq> [] \<and> DAList.lookup (transports st) sid = Some sd \<longrightarrow>
       post_mcp a req st =
         (\<lparr>set_headers = [],
           answer = Json 415 (jsonrpc_error (- 32000) ''Content-Type must be application/json'')\<rparr>,
          st\<lparr>transports := DAList.update sid (sd\<lparr>lastActivity := date_now a\<rparr>) (transports st)\<rparr>))
  \<and> ((or_empty (mcp_session_id req) = [] \<or> \<not> truthy (js_get st (or_empty (mcp_session_id req))))
       \<and> createToolkit a = Inr (pk, nw) \<and> \<not> connect_rejects a \<and> is_uuid (random_uuid a) \<longrightarrow>
       post_mcp a req st =
         (\<lparr>set_headers = [(''Mcp-Session-Id'', random_uuid a)],
           answer = Json 415 (jsonrpc_error (- 32000) ''Content-Type must be application/json'')\<rparr>,
          st\<lparr>next_ref := next_ref st + 2,
             transports := DAList.update (random_uuid a)
               \<lparr>transport = \<lparr>t_ref = next_ref st, onclose = Some (random_uuid a)\<rparr>,
                toolkit = \<lparr>tk_ref = next_ref st + 1, tk_privateKey = pk, tk_network = nw\<rparr>,
                lastActivity = date_now a\<rparr> (transports st)\<rparr>))
  \<and> ((or_empty (mcp_session_id req) = [] \<or> \<not> truthy (js_get st (or_empty (mcp_session_id req))))
       \<and> (createToolkit a = Inl e \<or> connect_rejects a) \<longrightarrow>
       answer (fst (post_mcp a req st)) = Json 500 (jsonrpc_error (- 32603) ''Internal server error'')
       \<and> transports (snd (post_mcp a req st)) = transports st)
  \<and> (mcp_session_id req = Some sid \<and> sid \<noteq> [] \<and> sid \<noteq> ''__proto__''
       \<and> DAList.lookup (sessions mt) sid = Some t \<longrightarrow>
       post_mcp_m a req mt =
         (\<lparr>set_headers = [],
           answer = Json 415 (jsonrpc_error (- 32000) ''Content-Type must be application/json'')\<rparr>,
          mt\<lparr>lastActivity_m := DAList.update sid (date_now a) (lastActivity_m mt)\<rparr>))
  \<and> ((or_empty (mcp_session_id req) = [] \<or> sessions_get mt (or_empty (mcp_session_id req)) = NoValue)
       \<and> createToolkit a = Inr (pk, nw) \<and> \<not> connect_rejects a \<and> is_uuid (random_uuid a) \<longrightarrow>
       post_mcp_m a req mt =
         (\<lparr>set_headers = [(''Mcp-Session-Id'', random_uuid a)],
           answer = Json 415 (jsonrpc_error (- 32000) ''Content-Type must be application/json'')\<rparr>,
          mt\<lparr>next_ref_m := next_ref_m mt + 2,
             sessions := DAList.update (random_uuid a)
               \<lparr>t_ref = next_ref_m mt, onclose = Some (random_uuid a)\<rparr> (sessions mt),
             toolkits := DAList.update (random_uuid a)
               \<lparr>tk_ref = next_ref_m mt + 1, tk_privateKey = pk, tk_network = nw\<rparr> (toolkits mt),
             lastActivity_m := DAList.update (random_uuid a) (date_now a) (lastActivity_m mt)\<rparr>))"
proof (intro conjI impI)
  assume h: "mcp_session_id req = Some sid \<and> sid \<noteq> [] \<and> DAList.lookup (transports st) sid = Some sd"
  then have "post_resolve a req st =
      (st\<lparr>transports := DAList.update sid (sd\<lparr>lastActivity := date_now a\<rparr>) (transports st)\<rparr>,
       Inr (Some (transport sd), []))"
    by (simp add: post_resolve_def post_reuse_def js_get_def set_lastActivity_def transport_of_def
        or_empty_def Let_def)
  then show "post_mcp a req st =
         (\<lparr>set_headers = [],
           answer = Json 415 (jsonrpc_error (- 32000) ''Content-Type must be application/json'')\<rparr>,
          st\<lparr>transports := DAList.update sid (sd\<lparr>lastActivity := date_now a\<rparr>) (transports st)\<rparr>)"
    by (simp add: post_mcp_def post_gate_415 [OF gate] catch_fault_def)
next
  assume h: "(or_empty (mcp_session_id req) = [] \<or> \<not> truthy (js_get st (or_empty (mcp_session_id req))))
       \<and> createToolkit a = Inr (pk, nw) \<and> \<not> connect_rejects a \<and> is_uuid (random_uuid a)"
  then have "post_resolve a req st = post_create a st"
    by (auto simp: post_resolve_def Let_def)
  with h show "post_mcp a req st =
         (\<lparr>set_headers = [(''Mcp-Session-Id'', random_uuid a)],
           answer = Json 415 (jsonrpc_error (- 32000) ''Content-Type must be application/json'')\<rparr>,
          st\<lparr>next_ref := next_ref st + 2,
             transports := DAList.update (random_uuid a)
               \<lparr>transport = \<lparr>t_ref = next_ref st, onclose = Some (random_uuid a)\<rparr>,
                toolkit = \<lparr>tk_ref = next_ref st + 1, tk_privateKey = pk, tk_network = nw\<rparr>,
                lastActivity = date_now a\<rparr> (transports st)\<rparr>)"
    by (simp add: post_mcp_def post_create_cases post_gate_415 [OF gate] catch_fault_def)
next
  assume h: "(or_empty (mcp_session_id req) = [] \<or> \<not> truthy (js_get st (or_empty (mcp_session_id req))))
       \<and> (createToolkit a = Inl e \<or> connect_rejects a)"
  then have r: "post_resolve a req st = post_create a st"
    by (auto simp: post_resolve_def Let_def)
  from h have "\<exists>st1 e1. post_create a st = (st1, Inl e1) \<and> transports st1 = transports st"
    by (cases "createToolkit a") (auto simp: post_create_cases)
  then obtain st1 e1 where c: "post_create a st = (st1, Inl e1)" "transports st1 = transports st"
    by blast
  show "answer (fst (post_mcp a req st)) = Json 500 (jsonrpc_error (- 32603) ''Internal server error'')"
    by (simp add: post_mcp_def r c catch_fault_def)
  show "transports (snd (post_mcp a req st)) = transports st"
    by (simp add: post_mcp_def r c)
next
  assume h: "mcp_session_id req = Some sid \<and> sid \<noteq> [] \<and> sid \<noteq> ''__proto__''
       \<and> DAList.lookup (sessions mt) sid = Some t"
  then have "post_resolve_m a req mt =
      (mt\<lparr>lastActivity_m := DAList.update sid (date_now a) (lastActivity_m mt)\<rparr>,
       Inr (Some t, []))"
    by (simp add: post_resolve_m_def sessions_get_def as_transport_def touch_m_def or_empty_def
        Let_def)
  then show "post_mcp_m a req mt =
         (\<lparr>set_headers = [],
           answer = Json 415 (jsonrpc_error (- 32000) ''Content-Type must be application/json'')\<rparr>,
          mt\<lparr>lastActivity_m := DAList.update sid (date_now a) (lastActivity_m mt)\<rparr>)"
    by (simp add: post_mcp_m_def post_gate_415 [OF gate] catch_fault_def)
next
  assume h: "(or_empty (mcp_session_id req) = [] \<or> sessions_get mt (or_empty (mcp_session_id req)) = NoValue)
       \<and> createToolkit a = Inr (pk, nw) \<and> \<not> connect_rejects a \<and> is_uuid (random_uuid a)"
  then have "post_resolve_m a req mt = post_create_m a mt"
    by (auto simp: post_resolve_m_def Let_def)
  with h show "post_mcp_m a req mt =
         (\<lparr>set_headers = [(''Mcp-Session-Id'', random_uuid a)],
           answer = Json 415 (jsonrpc_error (- 32000) ''Content-Type must be application/json'')\<rparr>,
          mt\<lparr>next_ref_m := next_ref_m mt + 2,
             sessions := DAList.update (random_uuid a)
               \<lparr>t_ref = next_ref_m mt, onclose = Some (random_uuid a)\<rparr> (sessions mt),
             toolkits := DAList.update (random_uuid a)
               \<lparr>tk_ref = next_ref_m mt + 1, tk_privateKey = pk, tk_network = nw\<rparr> (toolkits mt),
             lastActivity_m := DAList.update (random_uuid a) (date_now a) (lastActivity_m mt)\<rparr>)"
    by (simp add: post_mcp_m_def post_create_m_cases post_gate_415 [OF gate] catch_fault_def)
qed

theorem content_type_gate_after_resolution_witness:
  "post_mcp (env (Some ''0xkey'') 2000 uuid2) (http POST (Some uuid1) (Some ''text/plain'') None)
        (state1 uuid1 1000) =
      (\<lparr>set_headers = [],
        answer = Json 415 (jsonrpc_error (- 32000) ''Content-Type must be application/json'')\<rparr>,
       state1 uuid1 2000)
   \<and> post_mcp (env (Some ''0xkey'') 1000 uuid1) (http POST None (Some ''text/plain'') None)
        init_state =
      (\<lparr>set_headers = [(''Mcp-Session-Id'', uuid1)],
        answer = Json 415 (jsonrpc_error (- 32000) ''Content-Type must be application/json'')\<rparr>,
       state1 uuid1 1000)"
proof -
  have g: "\<not> str_includes (or_empty (content_type (http POST h (Some ''text/plain'') None)))
             ''application/json''" for h
    by (simp add: http_def or_empty_def)
  have u: "is_uuid uuid1"
    by (simp add: is_uuid_def uuid1_def)
  show ?thesis
    using content_type_gate_after_resolution [OF g, of "Some uuid1" uuid1 "state1 uuid1 1000"
        "session1 uuid1 1000" "env (Some ''0xkey'') 2000 uuid2"]
      content_type_gate_after_resolution [OF g, of None _ init_state _
        "env (Some ''0xkey'') 1000 uuid1" "''0xkey''" "''testnet''"] u
    by (simp add: http_def env_def state1_def session1_def init_state_def or_empty_def
        createToolkit_def uuid1_def)
qed

section \<open>Streaming negotiation on the session route\<close>

text \<open>
  Claim C2 says that a GET for a live session without \<^verbatim>\<open>text/event-stream\<close> in its
  Accept header is rejected with 406 and leaves the session's activity time alone.  The
  handler writes \<^verbatim>\<open>lastActivity\<close> right after the session check, before it looks at
  the method or at Accept: the session last active at 1000 is active at 2000 after a
  rejected GET at 2000.
\<close>

theorem streaming_negotiation_touches_session_counterexample:
  "req_method (http GET (Some uuid1) None (Some ''application/json'')) = GET
   \<and> DAList.lookup (transports (state1 uuid1 1000)) uuid1 = Some (session1 uuid1 1000)
   \<and> \<not> str_includes (or_empty (accept (http GET (Some uuid1) None (Some ''application/json''))))
         ''text/event-stream''
   \<and> handleSessionRequest (env (Some ''0xkey'') 2000 uuid2)
        (http GET (Some uuid1) None (Some ''application/json'')) (state1 uuid1 1000) =
      (\<lparr>set_headers = [],
        answer = Json 406 (JObj [(''jsonrpc'', JStr ''2.0''),
                   (''error'', JObj [(''code'', JNum (- 32000)),
                      (''message'', JStr ''Accept header must include text/event-stream'')]),
                   (''id'', JNull)])\<rparr>,
       state1 uuid1 2000)
   \<and> lastActivity (session1 uuid1 1000) = 1000
   \<and> DAList.lookup (transports (state1 uuid1 2000)) uuid1 = Some (session1 uuid1 2000)
   \<and> lastActivity (session1 uuid1 2000) = 2000"
  by (simp add: handleSessionRequest_def handleSessionRequest_try_def accept_gate_def js_get_def
      set_lastActivity_def transport_of_def or_empty_def catch_fault_def jsonrpc_error_def
      Let_def env_def http_def state1_def session1_def uuid1_def)

text \<open>
  Claim C2 as amended.  A GET that names a live session and whose Accept header does
  not include \<^verbatim>\<open>text/event-stream\<close> is answered 406 with code -32000; the store keeps
  the same ids, the session keeps its transport and toolkit, and its activity time is
  set to the time of the request.  The same holds of the variant with three objects.
\<close>

theorem streaming_negotiation_touches_session:
  assumes "req_method req = GET" and "mcp_session_id req = Some sid" and "sid \<noteq> []"
    and "\<not> str_includes (or_empty (accept req)) ''text/event-stream''"
  shows
   "(DAList.lookup (transports st) sid = Some sd \<longrightarrow>
       handleSessionRequest a req st =
         (\<lparr>set_headers = [],
           answer = Json 406 (jsonrpc_error (- 32000) ''Accept header must include text/event-stream'')\<rparr>,
          st\<lparr>transports := DAList.update sid (sd\<lparr>lastActivity := date_now a\<rparr>) (transports st)\<rparr>)
       \<and> keys_of (transports (snd (handleSessionRequest a req st))) = keys_of (transports st)
       \<and> DAList.lookup (transports (snd (handleSessionRequest a req st))) sid
           = Some \<lparr>transport = transport sd, toolkit = toolkit sd, lastActivity = date_now a\<rparr>)
  \<and> (DAList.lookup (sessions mt) sid = Some t \<and> sid \<noteq> ''__proto__'' \<longrightarrow>
       handleSessionRequest_m a req mt =
         (\<lparr>set_headers = [],
           answer = Json 406 (jsonrpc_error (- 32000) ''Accept header must include text/event-stream'')\<rparr>,
          mt\<lparr>lastActivity_m := DAList.update sid (date_now a) (lastActivity_m mt)\<rparr>))"
proof (intro conjI impI)
  assume live: "DAList.lookup (transports st) sid = Some sd"
  show r: "handleSessionRequest a req st =
         (\<lparr>set_headers = [],
           answer = Json 406 (jsonrpc_error (- 32000) ''Accept header must include text/event-stream'')\<rparr>,
          st\<lparr>transports := DAList.update sid (sd\<lparr>lastActivity := date_now a\<rparr>) (transports st)\<rparr>)"
    using assms
    by (simp add: handleSessionRequest_def handleSessionRequest_try_def accept_gate_def js_get_live [OF live]
        set_lastActivity_def or_empty_def catch_fault_def Let_def)
  from live have "sid \<in> keys_of (transports st)"
    using lookup_None_iff [of "transports st" sid] by auto
  then show "keys_of (transports (snd (handleSessionRequest a req st))) = keys_of (transports st)"
    by (auto simp: r keys_of_update)
  show "DAList.lookup (transports (snd (handleSessionRequest a req st))) sid
           = Some \<lparr>transport = transport sd, toolkit = toolkit sd, lastActivity = date_now a\<rparr>"
    by (simp add: r)
next
  assume live: "DAList.lookup (sessions mt) sid = Some t \<and> sid \<noteq> ''__proto__''"
  then show "handleSessionRequest_m a req mt =
         (\<lparr>set_headers = [],
           answer = Json 406 (jsonrpc_error (- 32000) ''Accept header must include text/event-stream'')\<rparr>,
          mt\<lparr>lastActivity_m := DAList.update sid (date_now a) (lastActivity_m mt)\<rparr>)"
    using assms
    by (simp add: handleSessionRequest_m_def accept_gate_def sessions_get_def touch_m_def or_empty_def
        catch_fault_def Let_def)
qed

theorem streaming_negotiation_touches_session_witness:
  "handleSessionRequest (env (Some ''0xkey'') 2000 uuid2) (http GET (Some uuid1) None None)
        (state1 uuid1 1000) =
      (\<lparr>set_headers = [],
        answer = Json 406 (jsonrpc_error (- 32000) ''Accept header must include text/event-stream'')\<rparr>,
       state1 uuid1 2000)"
proof -
  have "DAList.lookup (transports (state1 uuid1 1000)) uuid1 = Some (session1 uuid1 1000)"
    by (simp add: state1_def)
  then show ?thesis
    using streaming_negotiation_touches_session [of "http GET (Some uuid1) None None" uuid1
        "state1 uuid1 1000" "session1 uuid1 1000" "env (Some ''0xkey'') 2000 uuid2"]
    by (simp add: http_def env_def state1_def session1_def or_empty_def uuid1_def)
qed

section \<open>Termination\<close>

text \<open>
  Claim C3 says that terminating a session twice produces no error, the second
  termination being acknowledged as success.  The DELETE handler has no such path: an id
  that is not in the store, for whatever reason, gets the 400 answer of the session
  check.  After one DELETE of the only session, the same DELETE is answered 400.
\<close>

theorem second_termination_counterexample:
  "handleSessionRequest (env (Some ''0xkey'') 2000 uuid2) (http DELETE (Some uuid1) None None)
      (state1 uuid1 1000) =
     (\<lparr>set_headers = [],
       answer = Json 200 (JObj [(''status'', JStr ''ok''), (''message'', JStr ''Session terminated'')])\<rparr>,
      \<lparr>transports = DAList.empty, proto_lastActivity = None, next_ref = 2,
       closed_transports = [0]\<rparr>)
   \<and> handleSessionRequest (env (Some ''0xkey'') 3000 uuid2) (http DELETE (Some uuid1) None None)
      \<lparr>transports = DAList.empty, proto_lastActivity = None, next_ref = 2,
       closed_transports = [0]\<rparr> =
     (\<lparr>set_headers = [],
       answer = Json 400 (JObj [(''jsonrpc'', JStr ''2.0''),
                  (''error'', JObj [(''code'', JNum (- 32000)),
                                    (''message'', JStr ''Invalid or missing session ID'')]),
                  (''id'', JNull)])\<rparr>,
      \<lparr>transports = DAList.empty, proto_lastActivity = None, next_ref = 2,
       closed_transports = [0]\<rparr>)"
  by (simp add: handleSessionRequest_def handleSessionRequest_try_def accept_gate_def js_get_def
      set_lastActivity_def transport_of_def transport_close_def js_delete_def or_empty_def
      catch_fault_def jsonrpc_error_def Let_def env_def http_def state1_def session1_def
      uuid1_def object_prototype_keys_def alist_eq_iff update.rep_eq delete.rep_eq empty.rep_eq)

text \<open>
  Claim C3 as amended.  A DELETE that names a live session closes its transport, removes
  the session and answers 200 with \<^verbatim>\<open>{status: "ok", message: "Session terminated"}\<close>;
  the store has no entry for the id afterwards.  A second DELETE with that id, or a
  DELETE after the transport closed by itself and its hook removed the session, is
  answered 400 with code -32000 and changes nothing, so the store still has no entry for
  the id.
\<close>

theorem termination_then_rejection:
  assumes "req_method req = DELETE" and "mcp_session_id req = Some sid" and "is_uuid sid"
  shows
   "(DAList.lookup (transports st) sid = Some sd \<longrightarrow>
       fst (handleSessionRequest a req st) =
         \<lparr>set_headers = [],
          answer = Json 200 (JObj [(''status'', JStr ''ok''),
                                   (''message'', JStr ''Session terminated'')])\<rparr>
       \<and> DAList.lookup (transports (snd (handleSessionRequest a req st))) sid = None
       \<and> closed_transports (snd (handleSessionRequest a req st))
           = t_ref (transport sd) # closed_transports st
       \<and> handleSessionRequest a2 req (snd (handleSessionRequest a req st)) =
           (\<lparr>set_headers = [],
             answer = Json 400 (jsonrpc_error (- 32000) ''Invalid or missing session ID'')\<rparr>,
            snd (handleSessionRequest a req st)))
  \<and> (onclose t = Some sid \<longrightarrow>
       DAList.lookup (transports (run_onclose t st)) sid = None
       \<and> handleSessionRequest a req (run_onclose t st) =
           (\<lparr>set_headers = [],
             answer = Json 400 (jsonrpc_error (- 32000) ''Invalid or missing session ID'')\<rparr>,
            run_onclose t st))"
proof (intro conjI impI)
  have nk: "sid \<notin> set object_prototype_keys" "sid \<noteq> ''lastActivity''" "sid \<noteq> []"
    using is_uuid_not_inherited [OF assms(3)] by simp_all
  have rej: "handleSessionRequest b req s =
           (\<lparr>set_headers = [],
             answer = Json 400 (jsonrpc_error (- 32000) ''Invalid or missing session ID'')\<rparr>, s)"
    if "DAList.lookup (transports s) sid = None" for b s
    using handleSessionRequest_unknown [of s req b] js_get_unknown [OF that nk(1,2)] assms(2)
    by (simp add: or_empty_def)
  {
    assume live: "DAList.lookup (transports st) sid = Some sd"
    note r = handleSessionRequest_delete_live [OF assms(1,2) nk(3) live, of a]
    show "fst (handleSessionRequest a req st) =
         \<lparr>set_headers = [],
          answer = Json 200 (JObj [(''status'', JStr ''ok''),
                                   (''message'', JStr ''Session terminated'')])\<rparr>"
      by (simp add: r)
    show gone: "DAList.lookup (transports (snd (handleSessionRequest a req st))) sid = None"
      by (simp add: r js_delete_def)
    show "closed_transports (snd (handleSessionRequest a req st))
           = t_ref (transport sd) # closed_transports st"
      by (simp add: r js_delete_def closed_transport_close)
    show "handleSessionRequest a2 req (snd (handleSessionRequest a req st)) =
           (\<lparr>set_headers = [],
             answer = Json 400 (jsonrpc_error (- 32000) ''Invalid or missing session ID'')\<rparr>,
            snd (handleSessionRequest a req st))"
      by (rule rej [OF gone])
  }
  {
    assume hook: "onclose t = Some sid"
    show gone: "DAList.lookup (transports (run_onclose t st)) sid = None"
      by (simp add: run_onclose_def hook js_delete_def)
    show "handleSessionRequest a req (run_onclose t st) =
           (\<lparr>set_headers = [],
             answer = Json 400 (jsonrpc_error (- 32000) ''Invalid or missing session ID'')\<rparr>,
            run_onclose t st)"
      by (rule rej [OF gone])
  }
qed

theorem termination_then_rejection_witness:
  "fst (handleSessionRequest (env (Some ''0xkey'') 2000 uuid2) (http DELETE (Some uuid1) None None)
          (state1 uuid1 1000)) =
     \<lparr>set_headers = [],
      answer = Json 200 (JObj [(''status'', JStr ''ok''), (''message'', JStr ''Session terminated'')])\<rparr>
   \<and> DAList.lookup (transports (snd (handleSessionRequest (env (Some ''0xkey'') 2000 uuid2)
          (http DELETE (Some uuid1) None None) (state1 uuid1 1000)))) uuid1 = None
   \<and> handleSessionRequest (env (Some ''0xkey'') 2000 uuid2) (http DELETE (Some uuid1) None None)
          (run_onclose \<lparr>t_ref = 0, onclose = Some uuid1\<rparr> (state1 uuid1 1000)) =
       (\<lparr>set_headers = [],
         answer = Json 400 (jsonrpc_error (- 32000) ''Invalid or missing session ID'')\<rparr>,
        run_onclose \<lparr>t_ref = 0, onclose = Some uuid1\<rparr> (state1 uuid1 1000))"
proof -
  have u: "is_uuid uuid1"
    by (simp add: is_uuid_def uuid1_def)
  have l: "DAList.lookup (transports (state1 uuid1 1000)) uuid1 = Some (session1 uuid1 1000)"
    by (simp add: state1_def)
  have m: "req_method (http DELETE (Some uuid1) None None) = DELETE"
    "mcp_session_id (http DELETE (Some uuid1) None None) = Some uuid1"
    by (simp_all add: http_def)
  show ?thesis
    using termination_then_rejection [OF m u, of "state1 uuid1 1000" "session1 uuid1 1000"
        "env (Some ''0xkey'') 2000 uuid2" _ "\<lparr>t_ref = 0, onclose = Some uuid1\<rparr>"] l
    by simp
qed

section \<open>Provisioning failure\<close>

text \<open>
  Claim C4.  When the private key is absent (or empty) and the POST does not resolve to
  a session, \<^verbatim>\<open>createToolkit\<close> throws, the handler's \<^verbatim>\<open>catch\<close> answers 500 with the
  JSON-RPC code -32603 and no response header set, and nothing was registered: the
  \<^verbatim>\<open>transports\<close> object is exactly as before (only an object identity was used up by
  the transport that was constructed and dropped).
\<close>

theorem provisioning_failure_atomic:
  assumes "RECALL_PRIVATE_KEY a = None \<or> RECALL_PRIVATE_KEY a = Some []"
    and "or_empty (mcp_session_id req) = [] \<or> \<not> truthy (js_get st (or_empty (mcp_session_id req)))"
  shows "createToolkit a = Inl (Error ''Missing RECALL_PRIVATE_KEY environment variable'')
       \<and> post_mcp a req st =
           (\<lparr>set_headers = [],
             answer = Json 500 (JObj [(''jsonrpc'', JStr ''2.0''),
                        (''error'', JObj [(''code'', JNum (- 32603)),
                                          (''message'', JStr ''Internal server error'')]),
                        (''id'', JNull)])\<rparr>,
            st\<lparr>next_ref := next_ref st + 1\<rparr>)
       \<and> transports (snd (post_mcp a req st)) = transports st"
proof -
  have ct: "createToolkit a = Inl (Error ''Missing RECALL_PRIVATE_KEY environment variable'')"
    using assms(1) by (auto simp: createToolkit_def or_empty_def Let_def)
  have "post_resolve a req st = post_create a st"
    using assms(2) by (auto simp: post_resolve_def Let_def)
  moreover have "post_create a st =
      (st\<lparr>next_ref := next_ref st + 1\<rparr>,
       Inl (Error ''Missing RECALL_PRIVATE_KEY environment variable''))"
    by (simp add: post_create_def ct Let_def)
  ultimately show ?thesis
    using ct by (simp add: post_mcp_def catch_fault_def jsonrpc_error_def)
qed

theorem provisioning_failure_atomic_witness:
  "post_mcp (env None 1000 uuid1) (http POST None (Some ''application/json'') None) init_state =
     (\<lparr>set_headers = [],
       answer = Json 500 (JObj [(''jsonrpc'', JStr ''2.0''),
                  (''error'', JObj [(''code'', JNum (- 32603)),
                                    (''message'', JStr ''Internal server error'')]),
                  (''id'', JNull)])\<rparr>,
      init_state\<lparr>next_ref := 1\<rparr>)
   \<and> transports (snd (post_mcp (env None 1000 uuid1)
                          (http POST None (Some ''application/json'') None) init_state))
       = DAList.empty"
  using provisioning_failure_atomic
    [of "env None 1000 uuid1" "http POST None (Some ''application/json'') None" init_state]
  by (simp add: env_def http_def or_empty_def init_state_def)

section \<open>Session resolution on POST\<close>

text \<open>
  Claim C5 says that every POST without a currently valid id creates exactly one
  session and returns its id, and that every POST with a valid id is delegated to that
  session's transport.  Creation can fail: with no private key in the environment the
  POST creates nothing and returns no id.
\<close>

theorem session_resolution_counterexample:
  "mcp_session_id (http POST None (Some ''application/json'') None) = None
   \<and> post_mcp (env None 5000 uuid1) (http POST None (Some ''application/json'') None)
        (state1 uuid2 1000) =
      (\<lparr>set_headers = [],
        answer = Json 500 (JObj [(''jsonrpc'', JStr ''2.0''),
                   (''error'', JObj [(''code'', JNum (- 32603)),
                                     (''message'', JStr ''Internal server error'')]),
                   (''id'', JNull)])\<rparr>,
       (state1 uuid2 1000)\<lparr>next_ref := 3\<rparr>)
   \<and> DAList.lookup (transports ((state1 uuid2 1000)\<lparr>next_ref := 3\<rparr>)) uuid1 = None"
  by (simp add: post_mcp_def post_resolve_def post_create_def createToolkit_def or_empty_def
      catch_fault_def jsonrpc_error_def Let_def env_def http_def state1_def
      uuid1_def uuid2_def)

text \<open>
  Claim C5 as amended.  A POST whose header names a session in the store reuses it: the
  session's activity time is set, no other entry and no object is created, no
  \<^verbatim>\<open>Mcp-Session-Id\<close> header is set, and when the content-type gate passes the request
  is handed to that session's transport.  A POST with no id, or with an id for which
  the lookup finds nothing, registers exactly one new entry, under the generated id,
  and sets that id in \<^verbatim>\<open>Mcp-Session-Id\<close>, provided the toolkit can be created and
  connected; it is handed to the new transport when the gate passes.  When the toolkit
  cannot be created or connected, nothing is registered and no id is returned.
\<close>

theorem session_resolution:
  "(mcp_session_id req = Some sid \<and> sid \<noteq> [] \<and> DAList.lookup (transports st) sid = Some sd \<longrightarrow>
       snd (post_mcp a req st) =
         st\<lparr>transports := DAList.update sid (sd\<lparr>lastActivity := date_now a\<rparr>) (transports st)\<rparr>
       \<and> keys_of (transports (snd (post_mcp a req st))) = keys_of (transports st)
       \<and> map_of (set_headers (fst (post_mcp a req st))) ''Mcp-Session-Id'' = None
       \<and> (str_includes (or_empty (content_type req)) ''application/json''
            \<and> handleRequest a = Returns \<longrightarrow>
           answer (fst (post_mcp a req st)) = Handled (transport sd)))
  \<and> ((or_empty (mcp_session_id req) = [] \<or> \<not> truthy (js_get st (or_empty (mcp_session_id req))))
       \<and> createToolkit a = Inr (pk, nw) \<and> \<not> connect_rejects a \<and> is_uuid (random_uuid a) \<longrightarrow>
       snd (post_mcp a req st) =
         st\<lparr>next_ref := next_ref st + 2,
            transports := DAList.update (random_uuid a)
              \<lparr>transport = \<lparr>t_ref = next_ref st, onclose = Some (random_uuid a)\<rparr>,
               toolkit = \<lparr>tk_ref = next_ref st + 1, tk_privateKey = pk, tk_network = nw\<rparr>,
               lastActivity = date_now a\<rparr> (transports st)\<rparr>
       \<and> keys_of (transports (snd (post_mcp a req st)))
           = insert (random_uuid a) (keys_of (transports st))
       \<and> map_of (set_headers (fst (post_mcp a req st))) ''Mcp-Session-Id'' = Some (random_uuid a)
       \<and> (str_includes (or_empty (content_type req)) ''application/json''
            \<and> handleRequest a = Returns \<longrightarrow>
           answer (fst (post_mcp a req st))
             = Handled \<lparr>t_ref = next_ref st, onclose = Some (random_uuid a)\<rparr>))
  \<and> ((or_empty (mcp_session_id req) = [] \<or> \<not> truthy (js_get st (or_empty (mcp_session_id req))))
       \<and> (createToolkit a = Inl e \<or> connect_rejects a) \<longrightarrow>
       transports (snd (post_mcp a req st)) = transports st
       \<and> map_of (set_headers (fst (post_mcp a req st))) ''Mcp-Session-Id'' = None)"
proof (intro conjI impI)
  have gate_hs: "map_of (fst (post_gate a req tr hs)) ''Mcp-Session-Id'' = map_of hs ''Mcp-Session-Id''"
    for tr hs
    by (simp add: post_gate_def accept_negotiation_def setHeader_def Let_def AList.update_conv'
        split: option.splits handle_outcome.splits)
  have gate_ok: "snd (post_gate a req (Some t) hs) = Normal (Handled t)"
    if "str_includes (or_empty (content_type req)) ''application/json'' \<and> handleRequest a = Returns"
    for t hs
    using that by (simp add: post_gate_def accept_negotiation_def Let_def)
  {
    assume h: "mcp_session_id req = Some sid \<and> sid \<noteq> [] \<and> DAList.lookup (transports st) sid = Some sd"
    then have r: "post_resolve a req st =
        (st\<lparr>transports := DAList.update sid (sd\<lparr>lastActivity := date_now a\<rparr>) (transports st)\<rparr>,
         Inr (Some (transport sd), []))"
      by (simp add: post_resolve_def post_reuse_def js_get_def set_lastActivity_def transport_of_def
          or_empty_def Let_def)
    show s: "snd (post_mcp a req st) =
         st\<lparr>transports := DAList.update sid (sd\<lparr>lastActivity := date_now a\<rparr>) (transports st)\<rparr>"
      by (simp add: post_mcp_resolved [OF r])
    from h have "sid \<in> keys_of (transports st)"
      using lookup_None_iff [of "transports st" sid] by auto
    then show "keys_of (transports (snd (post_mcp a req st))) = keys_of (transports st)"
      by (auto simp: s keys_of_update)
    show "map_of (set_headers (fst (post_mcp a req st))) ''Mcp-Session-Id'' = None"
      using gate_hs [of "Some (transport sd)" "[]"]
      by (simp add: post_mcp_resolved [OF r])
    {
      assume ok: "str_includes (or_empty (content_type req)) ''application/json''
            \<and> handleRequest a = Returns"
      show "answer (fst (post_mcp a req st)) = Handled (transport sd)"
        using gate_ok [OF ok, of "transport sd" "[]"]
        by (simp add: post_mcp_resolved [OF r] catch_fault_def)
    }
  }
  {
    assume h: "(or_empty (mcp_session_id req) = [] \<or> \<not> truthy (js_get st (or_empty (mcp_session_id req))))
       \<and> createToolkit a = Inr (pk, nw) \<and> \<not> connect_rejects a \<and> is_uuid (random_uuid a)"
    then have "post_resolve a req st = post_create a st"
      by (auto simp: post_resolve_def Let_def)
    with h have r: "post_resolve a req st =
        (st\<lparr>next_ref := next_ref st + 2,
            transports := DAList.update (random_uuid a)
              \<lparr>transport = \<lparr>t_ref = next_ref st, onclose = Some (random_uuid a)\<rparr>,
               toolkit = \<lparr>tk_ref = next_ref st + 1, tk_privateKey = pk, tk_network = nw\<rparr>,
               lastActivity = date_now a\<rparr> (transports st)\<rparr>,
         Inr (Some \<lparr>t_ref = next_ref st, onclose = Some (random_uuid a)\<rparr>,
              [(''Mcp-Session-Id'', random_uuid a)]))"
      by (simp add: post_create_cases)
    show s: "snd (post_mcp a req st) =
         st\<lparr>next_ref := next_ref st + 2,
            transports := DAList.update (random_uuid a)
              \<lparr>transport = \<lparr>t_ref = next_ref st, onclose = Some (random_uuid a)\<rparr>,
               toolkit = \<lparr>tk_ref = next_ref st + 1, tk_privateKey = pk, tk_network = nw\<rparr>,
               lastActivity = date_now a\<rparr> (transports st)\<rparr>"
      by (simp add: post_mcp_resolved [OF r])
    show "keys_of (transports (snd (post_mcp a req st)))
           = insert (random_uuid a) (keys_of (transports st))"
      by (simp add: s keys_of_update)
    show "map_of (set_headers (fst (post_mcp a req st))) ''Mcp-Session-Id'' = Some (random_uuid a)"
      using gate_hs [of "Some \<lparr>t_ref = next_ref st, onclose = Some (random_uuid a)\<rparr>"
          "[(''Mcp-Session-Id'', random_uuid a)]"]
      by (simp add: post_mcp_resolved [OF r])
    {
      assume ok: "str_includes (or_empty (content_type req)) ''application/json''
            \<and> handleRequest a = Returns"
      show "answer (fst (post_mcp a req st))
             = Handled \<lparr>t_ref = next_ref st, onclose = Some (random_uuid a)\<rparr>"
        using gate_ok [OF ok, of "\<lparr>t_ref = next_ref st, onclose = Some (random_uuid a)\<rparr>"
            "[(''Mcp-Session-Id'', random_uuid a)]"]
        by (simp add: post_mcp_resolved [OF r] catch_fault_def)
    }
  }
  {
    assume h: "(or_empty (mcp_session_id req) = [] \<or> \<not> truthy (js_get st (or_empty (mcp_session_id req))))
       \<and> (createToolkit a = Inl e \<or> connect_rejects a)"
    then have r: "post_resolve a req st = post_create a st"
      by (auto simp: post_resolve_def Let_def)
    from h have "\<exists>st1 e1. post_create a st = (st1, Inl e1) \<and> transports st1 = transports st"
      by (cases "createToolkit a") (auto simp: post_create_cases)
    then obtain st1 e1 where c: "post_create a st = (st1, Inl e1)" "transports st1 = transports st"
      by blast
    show "transports (snd (post_mcp a req st)) = transports st"
      by (simp add: post_mcp_def r c)
    show "map_of (set_headers (fst (post_mcp a req st))) ''Mcp-Session-Id'' = None"
      by (simp add: post_mcp_def r c)
  }
qed

theorem session_resolution_witness:
  "post_mcp (env (Some ''0xkey'') 2000 uuid2)
      (http POST (Some uuid1) (Some ''application/json'') None) (state1 uuid1 1000)
     = (\<lparr>set_headers = [(''Content-Type'', ''application/json'')],
         answer = Handled \<lparr>t_ref = 0, onclose = Some uuid1\<rparr>\<rparr>,
        state1 uuid1 2000)
   \<and> post_mcp (env (Some ''0xkey'') 2000 uuid2)
      (http POST None (Some ''application/json'') None) (state1 uuid1 1000)
     = (\<lparr>set_headers = [(''Mcp-Session-Id'', uuid2), (''Content-Type'', ''application/json'')],
         answer = Handled \<lparr>t_ref = 2, onclose = Some uuid2\<rparr>\<rparr>,
        state2 uuid1 1000 uuid2 2000)"
proof -
  have u: "is_uuid uuid2"
    by (simp add: is_uuid_def uuid2_def)
  have l: "DAList.lookup (transports (state1 uuid1 1000)) uuid1 = Some (session1 uuid1 1000)"
    by (simp add: state1_def)
  have h1: "set_headers (fst (post_mcp (env (Some ''0xkey'') 2000 uuid2)
      (http POST (Some uuid1) (Some ''application/json'') None) (state1 uuid1 1000)))
      = [(''Content-Type'', ''application/json'')]"
    "set_headers (fst (post_mcp (env (Some ''0xkey'') 2000 uuid2)
      (http POST None (Some ''application/json'') None) (state1 uuid1 1000)))
      = [(''Mcp-Session-Id'', uuid2), (''Content-Type'', ''application/json'')]"
    by (simp_all add: post_mcp_def post_resolve_def post_reuse_def post_create_def
        createToolkit_def js_get_def set_lastActivity_def transport_of_def or_empty_def
        post_gate_def accept_negotiation_def setHeader_def Let_def env_def http_def state1_def session1_def
        uuid1_def uuid2_def)
  show ?thesis
    using session_resolution [of "http POST (Some uuid1) (Some ''application/json'') None" uuid1
        "state1 uuid1 1000" "session1 uuid1 1000" "env (Some ''0xkey'') 2000 uuid2"]
      session_resolution [of "http POST None (Some ''application/json'') None" _
        "state1 uuid1 1000" _ "env (Some ''0xkey'') 2000 uuid2" "''0xkey''" "''testnet''"]
      u l h1
    by (auto simp: prod_eq_iff reply.equality http_def env_def or_empty_def createToolkit_def
        state1_def state2_def session1_def session2_def uuid1_def)
qed

section \<open>The hooks of registered transports\<close>

text \<open>The hypothesis of the idle-expiry theorem holds in every state the server can
  reach: the POST handler installs on the transport it registers a hook for the id it
  registers it under, and no step changes a registered transport.\<close>

lemma set_update_subset: "set (AList.update k v xs) \<subseteq> insert (k, v) (set xs)"
  by (induction xs) auto

lemma list_all_update:
  "P (k, v) \<Longrightarrow> list_all P (DAList.impl_of al) \<Longrightarrow> list_all P (DAList.impl_of (DAList.update k v al))"
  using set_update_subset [of k v "DAList.impl_of al"]
  by (auto simp: list_all_iff update.rep_eq)

lemma list_all_delete:
  "list_all P (DAList.impl_of al) \<Longrightarrow> list_all P (DAList.impl_of (DAList.delete k al))"
  by (auto simp: list_all_iff delete.rep_eq AList.delete_eq)

lemma hooks_ok_js_delete: "hooks_ok st \<Longrightarrow> hooks_ok (js_delete k st)"
  by (simp add: hooks_ok_def js_delete_def list_all_delete)

lemma hooks_ok_transport_close: "hooks_ok st \<Longrightarrow> hooks_ok (transport_close t st)"
  using hooks_ok_js_delete [of "st\<lparr>closed_transports := t_ref t # closed_transports st\<rparr>"]
  by (auto simp: transport_close_def hooks_ok_def Let_def split: option.splits)

lemma hooks_ok_set_lastActivity:
  assumes "hooks_ok st" and "set_lastActivity sid (js_get st sid) now st = Inr st1"
  shows "hooks_ok st1"
proof (cases "js_get st sid")
  case (Session sd)
  then have "(sid, sd) \<in> set (DAList.impl_of (transports st))"
    by (auto simp: js_get_def lookup_mem split: option.splits if_splits)
  with assms(1) have "onclose (transport sd) = Some sid"
    by (auto simp: hooks_ok_def list_all_iff)
  with assms Session show ?thesis
    by (auto simp: set_lastActivity_def hooks_ok_def intro!: list_all_update)
qed (use assms in \<open>auto simp: set_lastActivity_def hooks_ok_def split: if_splits\<close>)

lemma hooks_ok_post_mcp: "hooks_ok st \<Longrightarrow> hooks_ok (snd (post_mcp a req st))"
proof -
  assume h: "hooks_ok st"
  have s: "snd (post_mcp a req st) = fst (post_resolve a req st)"
    by (simp add: post_mcp_def split: prod.splits sum.splits)
  have c: "hooks_ok (fst (post_create a st))"
    using h
    by (auto simp: post_create_cases hooks_ok_def intro!: list_all_update
        split: sum.splits prod.splits)
  have r: "hooks_ok (fst (post_reuse a sid st))" for sid
    using h hooks_ok_set_lastActivity [OF h, of sid "date_now a"]
    by (auto simp: post_reuse_def Let_def split: sum.splits)
  show ?thesis
    using c r by (simp add: s post_resolve_def Let_def)
qed

lemma hooks_ok_handleSessionRequest:
  "hooks_ok st \<Longrightarrow> hooks_ok (snd (handleSessionRequest a req st))"
proof -
  assume h: "hooks_ok st"
  have s: "snd (handleSessionRequest a req st) = fst (handleSessionRequest_try a req st)"
    by (simp add: handleSessionRequest_def split: prod.splits)
  show ?thesis
    using h hooks_ok_set_lastActivity [OF h, of "or_empty (mcp_session_id req)" "date_now a"]
      hooks_ok_js_delete hooks_ok_transport_close
    by (auto simp: s handleSessionRequest_try_def accept_gate_def Let_def
        split: sum.splits option.splits handle_outcome.splits)
qed

lemma hooks_ok_sweep: "hooks_ok st \<Longrightarrow> hooks_ok (sweep now st)"
proof -
  have "hooks_ok s \<Longrightarrow> hooks_ok (fold (sweep_entry now) es s)" for es s
  proof (induction es arbitrary: s)
    case Nil
    then show ?case by simp
  next
    case (Cons e es)
    have "hooks_ok (sweep_entry now e s)"
      using Cons.prems hooks_ok_js_delete hooks_ok_transport_close
      by (cases e) (auto simp: sweep_entry_unfold)
    with Cons.IH show ?case by simp
  qed
  then show "hooks_ok st \<Longrightarrow> hooks_ok (sweep now st)"
    by (simp add: sweep_def)
qed

lemma hooks_ok_step: "hooks_ok st \<Longrightarrow> hooks_ok (step st ev)"
  by (cases ev)
    (auto simp: hooks_ok_post_mcp hooks_ok_handleSessionRequest hooks_ok_sweep run_onclose_def
      hooks_ok_js_delete split: option.splits)

lemma hooks_ok_run: "hooks_ok (run evs)"
proof (induction evs rule: rev_induct)
  case Nil
  then show ?case
    by (simp add: run_def hooks_ok_def init_state_def empty.rep_eq)
next
  case (snoc ev evs)
  then show ?case
    by (simp add: run_snoc hooks_ok_step)
qed

text \<open>The same holds of the variant with three objects, step by step.\<close>

lemma hooks_ok_m_delete_m: "hooks_ok_m st \<Longrightarrow> hooks_ok_m (delete_m k st)"
  by (simp add: hooks_ok_m_def delete_m_def list_all_delete)

lemma hooks_ok_m_transport_close_m: "hooks_ok_m st \<Longrightarrow> hooks_ok_m (transport_close_m t st)"
  using hooks_ok_m_delete_m [of "st\<lparr>closed_m := t_ref t # closed_m st\<rparr>"]
  by (auto simp: transport_close_m_def hooks_ok_m_def Let_def split: option.splits)

lemma hooks_ok_m_post_mcp_m: "hooks_ok_m st \<Longrightarrow> hooks_ok_m (snd (post_mcp_m a req st))"
proof -
  assume h: "hooks_ok_m st"
  have s: "snd (post_mcp_m a req st) = fst (post_resolve_m a req st)"
    by (simp add: post_mcp_m_def split: prod.splits sum.splits)
  have c: "hooks_ok_m (fst (post_create_m a st))"
    using h
    by (auto simp: post_create_m_cases hooks_ok_m_def intro!: list_all_update
        split: sum.splits prod.splits)
  show ?thesis
    using c h by (simp add: s post_resolve_m_def touch_m_def hooks_ok_m_def Let_def)
qed

lemma hooks_ok_m_handleSessionRequest_m:
  "hooks_ok_m st \<Longrightarrow> hooks_ok_m (snd (handleSessionRequest_m a req st))"
proof -
  assume h: "hooks_ok_m st"
  have t: "hooks_ok_m (touch_m k now st)" for k now
    using h by (simp add: touch_m_def hooks_ok_m_def)
  show ?thesis
    using h t hooks_ok_m_delete_m [OF hooks_ok_m_transport_close_m [OF t]]
    by (auto simp: handleSessionRequest_m_def accept_gate_def Let_def
        split: option.splits handle_outcome.splits)
qed

lemma hooks_ok_m_sweep_m:
  assumes "hooks_ok_m st" and "sweep_m now st = Inr st'"
  shows "hooks_ok_m st'"
proof -
  have "fold (sweep_id_m now) ks r = Inr s' \<Longrightarrow>
        (\<exists>s. r = Inr s \<and> hooks_ok_m s) \<Longrightarrow> hooks_ok_m s'" for ks r s'
  proof (induction ks arbitrary: r)
    case Nil
    then show ?case by auto
  next
    case (Cons k ks)
    from Cons.prems(2) obtain s where s: "r = Inr s" "hooks_ok_m s" by blast
    from Cons.prems(1) obtain s1 where s1: "sweep_id_m now k r = Inr s1"
      by (cases "sweep_id_m now k r") (auto simp: sweep_m_thrown)
    have "hooks_ok_m s1"
      using s s1 hooks_ok_m_delete_m [OF hooks_ok_m_transport_close_m [OF s(2)]]
      by (auto simp: sweep_id_m_def split: option.splits if_splits)
    with Cons.IH [of "sweep_id_m now k r"] Cons.prems(1) s1 show ?case
      by auto
  qed
  with assms show ?thesis
    by (auto simp: sweep_m_def)
qed

section \<open>Idle expiry\<close>

text \<open>The loop over a snapshot whose hooks delete their own ids: the store loses the
  idle entries of the snapshot and nothing else, and their transports are closed.\<close>

lemma sweep_fold:
  assumes "list_all (\<lambda>entry. onclose (transport (snd entry)) = Some (fst entry)) es"
  shows "DAList.lookup (transports (fold (sweep_entry now) es st)) k =
           (if \<exists>sd. (k, sd) \<in> set es \<and> idle now sd then None
            else DAList.lookup (transports st) k)
       \<and> set (closed_transports (fold (sweep_entry now) es st)) =
           set (closed_transports st) \<union> {t_ref (transport sd) | sd. \<exists>k'. (k', sd) \<in> set es \<and> idle now sd}
       \<and> next_ref (fold (sweep_entry now) es st) = next_ref st
       \<and> proto_lastActivity (fold (sweep_entry now) es st) = proto_lastActivity st"
  using assms
proof (induction es arbitrary: st)
  case Nil
  then show ?case by simp
next
  case (Cons e es)
  obtain k' sd' where e: "e = (k', sd')" by (cases e)
  from Cons.prems have hook: "onclose (transport sd') = Some k'"
    and rest: "list_all (\<lambda>entry. onclose (transport (snd entry)) = Some (fst entry)) es"
    by (simp_all add: e)
  let ?st1 = "sweep_entry now (k', sd') st"
  have t1: "transports ?st1 = (if idle now sd' then DAList.delete k' (transports st) else transports st)"
    by (simp add: sweep_entry_unfold js_delete_def transports_transport_close hook alist_eq_iff
        delete.rep_eq AList.delete_idem)
  have c1: "closed_transports ?st1 =
      (if idle now sd' then t_ref (transport sd') # closed_transports st else closed_transports st)"
    by (simp add: sweep_entry_unfold js_delete_def closed_transport_close)
  have o1: "next_ref ?st1 = next_ref st" "proto_lastActivity ?st1 = proto_lastActivity st"
    by (simp_all add: sweep_entry_unfold js_delete_def transport_close_def Let_def hook)
  note ih = Cons.IH [OF rest, of ?st1]
  have "DAList.lookup (transports (fold (sweep_entry now) (e # es) st)) k =
           (if \<exists>sd. (k, sd) \<in> set (e # es) \<and> idle now sd then None
            else DAList.lookup (transports st) k)"
    using ih unfolding e by (auto simp: t1)
  moreover have "set (closed_transports (fold (sweep_entry now) (e # es) st)) =
           set (closed_transports st)
           \<union> {t_ref (transport sd) | sd. \<exists>k'. (k', sd) \<in> set (e # es) \<and> idle now sd}"
    using ih unfolding e by (auto simp: c1)
  moreover have "next_ref (fold (sweep_entry now) (e # es) st) = next_ref st"
    "proto_lastActivity (fold (sweep_entry now) (e # es) st) = proto_lastActivity st"
    using ih unfolding e by (simp_all add: o1)
  ultimately show ?case by blast
qed

lemma sweep_id_m_step:
  assumes "DAList.lookup (sessions st) k = Some t" and "onclose t = Some k"
  shows "sweep_id_m now k (Inr st) =
           Inr (if idle_m now st k
                then st\<lparr>closed_m := t_ref t # closed_m st,
                        sessions := DAList.delete k (sessions st),
                        toolkits := DAList.delete k (toolkits st),
                        lastActivity_m := DAList.delete k (lastActivity_m st)\<rparr>
                else st)"
  using assms
  by (auto simp: sweep_id_m_def idle_m_def transport_close_m_def delete_m_def Let_def
      alist_eq_iff delete.rep_eq AList.delete_idem split: option.splits)

lemma sweep_m_fold:
  assumes "distinct ks"
    and "\<forall>k\<in>set ks. \<exists>t. DAList.lookup (sessions st) k = Some t \<and> onclose t = Some k"
  shows "\<exists>st'. fold (sweep_id_m now) ks (Inr st) = Inr st'
       \<and> (\<forall>k. DAList.lookup (sessions st') k =
                (if k \<in> set ks \<and> idle_m now st k then None else DAList.lookup (sessions st) k))
       \<and> (\<forall>k. DAList.lookup (toolkits st') k =
                (if k \<in> set ks \<and> idle_m now st k then None else DAList.lookup (toolkits st) k))
       \<and> (\<forall>k. DAList.lookup (lastActivity_m st') k =
                (if k \<in> set ks \<and> idle_m now st k then None
                 else DAList.lookup (lastActivity_m st) k))
       \<and> set (closed_m st') =
           set (closed_m st)
           \<union> {t_ref t | t. \<exists>k\<in>set ks. DAList.lookup (sessions st) k = Some t \<and> idle_m now st k}"
  using assms
proof (induction ks arbitrary: st)
  case Nil
  then show ?case by simp
next
  case (Cons k ks)
  from Cons.prems obtain t where t: "DAList.lookup (sessions st) k = Some t" "onclose t = Some k"
    by auto
  define st1 where "st1 =
     (if idle_m now st k
      then st\<lparr>closed_m := t_ref t # closed_m st,
              sessions := DAList.delete k (sessions st),
              toolkits := DAList.delete k (toolkits st),
              lastActivity_m := DAList.delete k (lastActivity_m st)\<rparr>
      else st)"
  have step: "sweep_id_m now k (Inr st) = Inr st1"
    by (simp add: sweep_id_m_step [OF t] st1_def)
  have notin: "k \<notin> set ks" and dist: "distinct ks"
    using Cons.prems(1) by simp_all
  have same: "DAList.lookup (sessions st1) k' = DAList.lookup (sessions st) k'"
    "idle_m now st1 k' = idle_m now st k'" if "k' \<in> set ks" for k'
    using that notin by (auto simp: st1_def idle_m_def)
  have pre: "\<forall>k'\<in>set ks. \<exists>t. DAList.lookup (sessions st1) k' = Some t \<and> onclose t = Some k'"
    using Cons.prems(2) same by simp
  from Cons.IH [OF dist pre] obtain st' where
    f: "fold (sweep_id_m now) ks (Inr st1) = Inr st'"
    and s: "\<And>k'. DAList.lookup (sessions st') k' =
                (if k' \<in> set ks \<and> idle_m now st1 k' then None else DAList.lookup (sessions st1) k')"
    and tk: "\<And>k'. DAList.lookup (toolkits st') k' =
                (if k' \<in> set ks \<and> idle_m now st1 k' then None else DAList.lookup (toolkits st1) k')"
    and la: "\<And>k'. DAList.lookup (lastActivity_m st') k' =
                (if k' \<in> set ks \<and> idle_m now st1 k' then None
                 else DAList.lookup (lastActivity_m st1) k')"
    and cl: "set (closed_m st') =
           set (closed_m st1)
           \<union> {t_ref t | t. \<exists>k\<in>set ks. DAList.lookup (sessions st1) k = Some t \<and> idle_m now st1 k}"
    by blast
  have "fold (sweep_id_m now) (k # ks) (Inr st) = Inr st'"
    by (simp add: step f)
  moreover have "DAList.lookup (sessions st') k' =
      (if k' \<in> set (k # ks) \<and> idle_m now st k' then None else DAList.lookup (sessions st) k')" for k'
    using s [of k'] same [of k'] notin by (auto simp: st1_def)
  moreover have "DAList.lookup (toolkits st') k' =
      (if k' \<in> set (k # ks) \<and> idle_m now st k' then None else DAList.lookup (toolkits st) k')" for k'
    using tk [of k'] same [of k'] notin by (auto simp: st1_def)
  moreover have "DAList.lookup (lastActivity_m st') k' =
      (if k' \<in> set (k # ks) \<and> idle_m now st k' then None
       else DAList.lookup (lastActivity_m st) k')" for k'
    using la [of k'] same [of k'] notin by (auto simp: st1_def)
  moreover have "set (closed_m st') =
           set (closed_m st)
           \<union> {t_ref t | t. \<exists>k\<in>set (k # ks). DAList.lookup (sessions st) k = Some t \<and> idle_m now st k}"
  proof -
    have "{t_ref t | t. \<exists>k\<in>set ks. DAList.lookup (sessions st1) k = Some t \<and> idle_m now st1 k}
        = {t_ref t | t. \<exists>k\<in>set ks. DAList.lookup (sessions st) k = Some t \<and> idle_m now st k}"
      using same by auto
    moreover have "set (closed_m st1) =
        set (closed_m st) \<union> (if idle_m now st k then {t_ref t} else {})"
      by (simp add: st1_def)
    ultimately show ?thesis
      using cl t by auto
  qed
  ultimately show ?case by blast
qed

text \<open>
  Claim C6.  At a tick of the cleanup timer, every session whose time since its last
  activity exceeds 30 minutes is removed from the store and its transport is closed;
  every session within the timeout is still in the store, unchanged; no session
  appears.  The timer is set to 5 minutes when the module is loaded, and the tick is an
  event of its own, not a step of a request handler.  No other transport is closed.
  The statement is about a store in which the hook of every registered transport
  deletes the id the session is registered under, and every state of a run is such a
  store.  The variant with three objects reads the time from its \<^verbatim>\<open>lastActivity\<close>
  object and removes the id from all three.
\<close>

theorem idle_expiry:
  "(hooks_ok st \<longrightarrow>
      (DAList.lookup (transports st) k = Some sd \<and> now - lastActivity sd > 30 * 60 * 1000 \<longrightarrow>
         DAList.lookup (transports (sweep now st)) k = None
         \<and> t_ref (transport sd) \<in> set (closed_transports (sweep now st)))
      \<and> (DAList.lookup (transports st) k = Some sd \<and> now - lastActivity sd \<le> 30 * 60 * 1000 \<longrightarrow>
         DAList.lookup (transports (sweep now st)) k = Some sd)
      \<and> (DAList.lookup (transports st) k = None \<longrightarrow>
         DAList.lookup (transports (sweep now st)) k = None)
      \<and> set (closed_transports (sweep now st)) =
          set (closed_transports st)
          \<union> {t_ref (transport sd') | sd'. \<exists>k'. DAList.lookup (transports st) k' = Some sd'
                                           \<and> now - lastActivity sd' > 30 * 60 * 1000})
  \<and> (hooks_ok_m mt \<longrightarrow>
      (\<exists>mt'. sweep_m now mt = Inr mt'
        \<and> (DAList.lookup (sessions mt) k = Some t \<and> DAList.lookup (lastActivity_m mt) k = Some ts
             \<and> now - ts > 30 * 60 * 1000 \<longrightarrow>
            DAList.lookup (sessions mt') k = None \<and> DAList.lookup (toolkits mt') k = None
            \<and> DAList.lookup (lastActivity_m mt') k = None \<and> t_ref t \<in> set (closed_m mt'))
        \<and> (DAList.lookup (sessions mt) k = Some t \<and> DAList.lookup (lastActivity_m mt) k = Some ts
             \<and> now - ts \<le> 30 * 60 * 1000 \<longrightarrow>
            DAList.lookup (sessions mt') k = Some t
            \<and> DAList.lookup (toolkits mt') k = DAList.lookup (toolkits mt) k
            \<and> DAList.lookup (lastActivity_m mt') k = Some ts)))
  \<and> hooks_ok (run evs)
  \<and> step st (Tick now) = sweep now st
  \<and> sweep_interval = 5 * 60 * 1000"
proof (intro conjI impI)
  assume h: "hooks_ok st"
  note f = sweep_fold [OF h [unfolded hooks_ok_def], of now st, folded sweep_def]
  {
    assume a: "DAList.lookup (transports st) k = Some sd \<and> now - lastActivity sd > 30 * 60 * 1000"
    then have m: "(k, sd) \<in> set (DAList.impl_of (transports st))" "idle now sd"
      by (simp_all add: lookup_mem idle_def sessionTimeout_def)
    from m show "DAList.lookup (transports (sweep now st)) k = None"
      using f [of k] by auto
    from m show "t_ref (transport sd) \<in> set (closed_transports (sweep now st))"
      using f [of k] by auto
  }
  {
    assume a: "DAList.lookup (transports st) k = Some sd \<and> now - lastActivity sd \<le> 30 * 60 * 1000"
    then have "\<not> idle now sd"
      by (simp add: idle_def sessionTimeout_def)
    moreover have "sd' = sd" if "(k, sd') \<in> set (DAList.impl_of (transports st))" for sd'
      using that a by (simp flip: lookup_mem)
    ultimately show "DAList.lookup (transports (sweep now st)) k = Some sd"
      using f [of k] a by auto
  }
  {
    assume a: "DAList.lookup (transports st) k = None"
    then have "(k, sd') \<notin> set (DAList.impl_of (transports st))" for sd'
      by (simp flip: lookup_mem)
    then show "DAList.lookup (transports (sweep now st)) k = None"
      using f [of k] a by auto
  }
  show "set (closed_transports (sweep now st)) =
          set (closed_transports st)
          \<union> {t_ref (transport sd') | sd'. \<exists>k'. DAList.lookup (transports st) k' = Some sd'
                                           \<and> now - lastActivity sd' > 30 * 60 * 1000}"
    using f [of k] by (simp add: lookup_mem idle_def sessionTimeout_def)
next
  assume h: "hooks_ok_m mt"
  have d: "distinct (map fst (DAList.impl_of (sessions mt)))"
    by simp
  have p: "\<forall>k\<in>set (map fst (DAList.impl_of (sessions mt))).
             \<exists>t. DAList.lookup (sessions mt) k = Some t \<and> onclose t = Some k"
    using h by (fastforce simp: hooks_ok_m_def list_all_iff lookup_mem)
  from sweep_m_fold [OF d p, of now, folded sweep_m_def] obtain mt' where
    r: "sweep_m now mt = Inr mt'"
    and s: "\<And>k. DAList.lookup (sessions mt') k =
              (if k \<in> set (map fst (DAList.impl_of (sessions mt))) \<and> idle_m now mt k then None
               else DAList.lookup (sessions mt) k)"
    and tk: "\<And>k. DAList.lookup (toolkits mt') k =
              (if k \<in> set (map fst (DAList.impl_of (sessions mt))) \<and> idle_m now mt k then None
               else DAList.lookup (toolkits mt) k)"
    and la: "\<And>k. DAList.lookup (lastActivity_m mt') k =
              (if k \<in> set (map fst (DAList.impl_of (sessions mt))) \<and> idle_m now mt k then None
               else DAList.lookup (lastActivity_m mt) k)"
    and cl: "set (closed_m mt') =
           set (closed_m mt)
           \<union> {t_ref t | t. \<exists>k\<in>set (map fst (DAList.impl_of (sessions mt))).
                  DAList.lookup (sessions mt) k = Some t \<and> idle_m now mt k}"
    by blast
  have key: "k \<in> set (map fst (DAList.impl_of (sessions mt)))"
    if "DAList.lookup (sessions mt) k = Some t" for k t
    using that by (force simp: lookup_mem)
  show "\<exists>mt'. sweep_m now mt = Inr mt'
        \<and> (DAList.lookup (sessions mt) k = Some t \<and> DAList.lookup (lastActivity_m mt) k = Some ts
             \<and> now - ts > 30 * 60 * 1000 \<longrightarrow>
            DAList.lookup (sessions mt') k = None \<and> DAList.lookup (toolkits mt') k = None
            \<and> DAList.lookup (lastActivity_m mt') k = None \<and> t_ref t \<in> set (closed_m mt'))
        \<and> (DAList.lookup (sessions mt) k = Some t \<and> DAList.lookup (lastActivity_m mt) k = Some ts
             \<and> now - ts \<le> 30 * 60 * 1000 \<longrightarrow>
            DAList.lookup (sessions mt') k = Some t
            \<and> DAList.lookup (toolkits mt') k = DAList.lookup (toolkits mt) k
            \<and> DAList.lookup (lastActivity_m mt') k = Some ts)"
  proof (intro exI [of _ mt'] conjI impI)
    show "sweep_m now mt = Inr mt'" by (rule r)
  next
    assume a: "DAList.lookup (sessions mt) k = Some t \<and> DAList.lookup (lastActivity_m mt) k = Some ts
             \<and> now - ts > 30 * 60 * 1000"
    then have i: "idle_m now mt k" and kk: "k \<in> set (map fst (DAList.impl_of (sessions mt)))"
      using key by (simp_all add: idle_m_def sessionTimeout_def)
    show "DAList.lookup (sessions mt') k = None" "DAList.lookup (toolkits mt') k = None"
      "DAList.lookup (lastActivity_m mt') k = None"
      using i kk by (simp_all add: s tk la)
    show "t_ref t \<in> set (closed_m mt')"
      using i kk a by (auto simp: cl)
  next
    assume a: "DAList.lookup (sessions mt) k = Some t \<and> DAList.lookup (lastActivity_m mt) k = Some ts
             \<and> now - ts \<le> 30 * 60 * 1000"
    then have i: "\<not> idle_m now mt k"
      by (simp add: idle_m_def sessionTimeout_def)
    show "DAList.lookup (sessions mt') k = Some t"
      "DAList.lookup (toolkits mt') k = DAList.lookup (toolkits mt) k"
      "DAList.lookup (lastActivity_m mt') k = Some ts"
      using i a by (simp_all add: s tk la)
  qed
next
  show "hooks_ok (run evs)" by (rule hooks_ok_run)
  show "step st (Tick now) = sweep now st" by simp
  show "sweep_interval = 5 * 60 * 1000" by (simp add: sweep_interval_def)
qed

theorem idle_expiry_witness:
  "DAList.lookup (transports (sweep 1801001 (state2 uuid1 1000 uuid2 1500000))) uuid1 = None
   \<and> 0 \<in> set (closed_transports (sweep 1801001 (state2 uuid1 1000 uuid2 1500000)))
   \<and> DAList.lookup (transports (sweep 1801001 (state2 uuid1 1000 uuid2 1500000))) uuid2
       = Some (session2 uuid2 1500000)
   \<and> DAList.lookup (transports (sweep 1801000 (state2 uuid1 1000 uuid2 1500000))) uuid1
       = Some (session1 uuid1 1000)"
proof -
  have h: "hooks_ok (state2 uuid1 1000 uuid2 1500000)"
    by (simp add: hooks_ok_def state2_def session1_def session2_def update.rep_eq empty.rep_eq
        uuid1_def uuid2_def)
  have l: "DAList.lookup (transports (state2 uuid1 1000 uuid2 1500000)) uuid1
              = Some (session1 uuid1 1000)"
    "DAList.lookup (transports (state2 uuid1 1000 uuid2 1500000)) uuid2
              = Some (session2 uuid2 1500000)"
    by (simp_all add: state2_def uuid1_def uuid2_def)
  show ?thesis
    using idle_expiry [of "state2 uuid1 1000 uuid2 1500000" uuid1 "session1 uuid1 1000" 1801001]
      idle_expiry [of "state2 uuid1 1000 uuid2 1500000" uuid2 "session2 uuid2 1500000" 1801001]
      idle_expiry [of "state2 uuid1 1000 uuid2 1500000" uuid1 "session1 uuid1 1000" 1801000]
      h l
    by (simp add: session1_def session2_def)
qed

section \<open>The session check of GET and DELETE\<close>

text \<open>An absent or empty header, and an id that is neither in the store nor a name
  inherited from the prototype, get the 400 answer and change nothing.\<close>

lemma session_check_rejects_unknown:
  assumes "mcp_session_id req = None \<or> mcp_session_id req = Some []
           \<or> (mcp_session_id req = Some sid \<and> DAList.lookup (transports st) sid = None
               \<and> sid \<notin> set object_prototype_keys \<and> sid \<noteq> ''lastActivity'')"
  shows "handleSessionRequest a req st =
           (\<lparr>set_headers = [],
             answer = Json 400 (JObj [(''jsonrpc'', JStr ''2.0''),
                        (''error'', JObj [(''code'', JNum (- 32000)),
                                          (''message'', JStr ''Invalid or missing session ID'')]),
                        (''id'', JNull)])\<rparr>, st)"
  using assms
  by (auto simp: handleSessionRequest_def handleSessionRequest_try_def accept_gate_def catch_fault_def Let_def
      or_empty_def js_get_def jsonrpc_error_def)

text \<open>
  Claim C7: a GET or DELETE whose session id does not match a live session is answered
  400 with the envelope of code -32000.  The check reads \<^verbatim>\<open>transports[sessionId]\<close> on
  a plain object, so an id such as \<^verbatim>\<open>constructor\<close> finds the inherited property and
  passes although no session has that id.  On a server with no session at all, the
  DELETE then fails on \<^verbatim>\<open>sessionData.transport.close()\<close> and the GET on
  \<^verbatim>\<open>sessionData.transport.handleRequest\<close>; both get the 500 answer of the
  \<^verbatim>\<open>catch\<close> block.  The store is not changed.
\<close>

theorem session_check_inherited_name:
  "DAList.lookup (transports init_state) ''constructor'' = None
   \<and> handleSessionRequest (env (Some ''0xkey'') 1000 uuid1)
        (http DELETE (Some ''constructor'') None None) init_state =
      (\<lparr>set_headers = [],
        answer = Json 500 (JObj [(''jsonrpc'', JStr ''2.0''),
                   (''error'', JObj [(''code'', JNum (- 32603)),
                                     (''message'', JStr ''Internal server error'')]),
                   (''id'', JNull)])\<rparr>,
       init_state)
   \<and> handleSessionRequest (env (Some ''0xkey'') 1000 uuid1)
        (http GET (Some ''constructor'') None (Some ''text/event-stream'')) init_state =
      (\<lparr>set_headers = [(''Content-Type'', ''text/event-stream''), (''Cache-Control'', ''no-cache''),
                       (''Connection'', ''keep-alive'')],
        answer = Json 500 (JObj [(''jsonrpc'', JStr ''2.0''),
                   (''error'', JObj [(''code'', JNum (- 32603)),
                                     (''message'', JStr ''Internal server error'')]),
                   (''id'', JNull)])\<rparr>,
       init_state)"
  by (simp add: handleSessionRequest_def handleSessionRequest_try_def accept_gate_def js_get_def
      set_lastActivity_def transport_of_def or_empty_def catch_fault_def jsonrpc_error_def
      setHeader_def Let_def env_def http_def init_state_def object_prototype_keys_def)

section \<open>Session ids over a run\<close>

lemma keys_js_delete: "keys_of (transports (js_delete k st)) = keys_of (transports st) - {k}"
  by (simp add: js_delete_def keys_of_delete)

lemma keys_transport_close: "keys_of (transports (transport_close t st)) \<subseteq> keys_of (transports st)"
  by (auto simp: transports_transport_close keys_of_delete split: option.splits)

lemma keys_set_lastActivity:
  assumes "set_lastActivity sid (js_get st sid) now st = Inr st1"
  shows "keys_of (transports st1) = keys_of (transports st)"
proof (cases "js_get st sid")
  case (Session sd)
  then have "DAList.lookup (transports st) sid = Some sd"
    by (auto simp: js_get_def split: option.splits if_splits)
  then have "sid \<in> keys_of (transports st)"
    using lookup_None_iff [of "transports st" sid] by auto
  with assms Session show ?thesis
    by (auto simp: set_lastActivity_def keys_of_update)
qed (use assms in \<open>auto simp: set_lastActivity_def split: if_splits\<close>)

lemma keys_post_mcp:
  "keys_of (transports (snd (post_mcp a req st))) \<subseteq> insert (random_uuid a) (keys_of (transports st))"
proof -
  have "keys_of (transports (fst (post_resolve a req st)))
          \<subseteq> insert (random_uuid a) (keys_of (transports st))"
    using keys_set_lastActivity [of "or_empty (mcp_session_id req)" st "date_now a"]
    by (auto simp: post_resolve_def post_reuse_def post_create_cases keys_of_update Let_def
        split: sum.splits prod.splits if_splits)
  moreover have "snd (post_mcp a req st) = fst (post_resolve a req st)"
    by (simp add: post_mcp_def split: prod.splits sum.splits)
  ultimately show ?thesis by simp
qed

lemma keys_handleSessionRequest:
  "keys_of (transports (snd (handleSessionRequest a req st))) \<subseteq> keys_of (transports st)"
proof -
  have "keys_of (transports (fst (handleSessionRequest_try a req st))) \<subseteq> keys_of (transports st)"
    using keys_set_lastActivity [of "or_empty (mcp_session_id req)" st "date_now a"]
      keys_transport_close
    by (fastforce simp: handleSessionRequest_try_def accept_gate_def keys_js_delete Let_def
        split: sum.splits option.splits handle_outcome.splits if_splits)
  moreover have "snd (handleSessionRequest a req st) = fst (handleSessionRequest_try a req st)"
    by (simp add: handleSessionRequest_def split: prod.splits)
  ultimately show ?thesis by simp
qed

lemma keys_sweep_fold:
  "keys_of (transports (fold (sweep_entry now) es st)) \<subseteq> keys_of (transports st)"
proof (induction es arbitrary: st)
  case Nil
  then show ?case by simp
next
  case (Cons e es)
  have "keys_of (transports (sweep_entry now e st)) \<subseteq> keys_of (transports st)"
    using keys_transport_close [of "transport (snd e)" st]
    by (cases e) (auto simp: sweep_entry_unfold keys_js_delete)
  with Cons.IH [of "sweep_entry now e st"] show ?case by auto
qed

lemma keys_step:
  "keys_of (transports (step st ev)) \<subseteq> keys_of (transports st) \<union> set (generated [ev])"
proof (cases ev)
  case (Post a req)
  then show ?thesis using keys_post_mcp [of a req st] by auto
next
  case (SessionReq a req)
  then show ?thesis using keys_handleSessionRequest [of a req st] by auto
next
  case (Tick now)
  then show ?thesis using keys_sweep_fold [of now _ st] by (auto simp: sweep_def)
next
  case (Closed t)
  then show ?thesis by (auto simp: run_onclose_def keys_js_delete split: option.splits)
qed

lemma keys_foldl_step:
  "keys_of (transports (foldl step st evs)) \<subseteq> keys_of (transports st) \<union> set (generated evs)"
proof (induction evs rule: rev_induct)
  case Nil
  then show ?case by simp
next
  case (snoc ev evs)
  show ?case
    using snoc.IH keys_step [of "foldl step st evs" ev]
    by (auto simp: generated_append)
qed

lemma keys_run: "keys_of (transports (run evs)) \<subseteq> set (generated evs)"
  using keys_foldl_step [of init_state evs]
  by (simp add: run_def init_state_def keys_of_empty)

text \<open>
  Claim C8.  Take any run of the server from its start in which the generator returns
  UUIDs and never the same one twice.  At every instant the ids in the store are
  pairwise distinct and all of them were generated during the run.  The id a POST
  generates is not the id of any session in the store at that moment, so a creation
  never takes over an existing session.  Once an id that was in the store is no longer
  in it, it never is again: whatever follows, the lookup of that id finds nothing, a GET
  or DELETE bearing it is answered 400, and a POST bearing it goes to the creation
  branch, which registers under a newly generated id.
\<close>

theorem ids_unique_never_revived:
  assumes "generator_ok evs"
  shows "distinct (map fst (DAList.impl_of (transports (run evs))))
    \<and> keys_of (transports (run evs)) \<subseteq> set (generated evs)
    \<and> (evs = pre @ Post a req # post \<longrightarrow>
          random_uuid a \<notin> keys_of (transports (run pre)))
    \<and> (evs = evs1 @ evs2 @ evs3 \<and> sid \<in> keys_of (transports (run evs1))
        \<and> sid \<notin> keys_of (transports (run (evs1 @ evs2))) \<longrightarrow>
          js_get (run evs) sid = Undefined
          \<and> (mcp_session_id r = Some sid \<longrightarrow>
                handleSessionRequest b r (run evs) =
                  (\<lparr>set_headers = [],
                    answer = Json 400 (jsonrpc_error (- 32000) ''Invalid or missing session ID'')\<rparr>,
                   run evs)
                \<and> post_resolve b r (run evs) = post_create b (run evs)))"
proof (intro conjI impI)
  from assms have d: "distinct (generated evs)" and u: "list_all is_uuid (generated evs)"
    by (simp_all add: generator_ok_def)
  show "distinct (map fst (DAList.impl_of (transports (run evs))))"
    by simp
  show "keys_of (transports (run evs)) \<subseteq> set (generated evs)"
    by (rule keys_run)
  {
    assume e: "evs = pre @ Post a req # post"
    then have "random_uuid a \<notin> set (generated pre)"
      using d by (simp add: generated_append)
    then show "random_uuid a \<notin> keys_of (transports (run pre))"
      using keys_run [of pre] by auto
  }
  {
    assume h: "evs = evs1 @ evs2 @ evs3 \<and> sid \<in> keys_of (transports (run evs1))
        \<and> sid \<notin> keys_of (transports (run (evs1 @ evs2)))"
    then have g1: "sid \<in> set (generated evs1)"
      using keys_run [of evs1] by auto
    with h d have g3: "sid \<notin> set (generated evs3)"
      by (auto simp: generated_append)
    have "keys_of (transports (run evs))
            \<subseteq> keys_of (transports (run (evs1 @ evs2))) \<union> set (generated evs3)"
      using keys_foldl_step [of "run (evs1 @ evs2)" evs3] h
      by (simp add: run_append)
    with h g3 have gone: "DAList.lookup (transports (run evs)) sid = None"
      by (auto simp: lookup_None_iff)
    from g1 h u have "is_uuid sid"
      by (auto simp: generated_append list_all_iff)
    then have nk: "sid \<notin> set object_prototype_keys" "sid \<noteq> ''lastActivity''"
      using is_uuid_not_inherited by simp_all
    show undef: "js_get (run evs) sid = Undefined"
      by (rule js_get_unknown [OF gone nk])
    {
      assume r: "mcp_session_id r = Some sid"
      show "handleSessionRequest b r (run evs) =
                  (\<lparr>set_headers = [],
                    answer = Json 400 (jsonrpc_error (- 32000) ''Invalid or missing session ID'')\<rparr>,
                   run evs)"
        using handleSessionRequest_unknown [of "run evs" r b] undef r
        by (simp add: or_empty_def)
      show "post_resolve b r (run evs) = post_create b (run evs)"
        using undef r by (simp add: post_resolve_def or_empty_def Let_def)
    }
  }
qed

theorem ids_unique_never_revived_witness:
  "js_get (run [Post (env (Some ''0xkey'') 1000 uuid1) (http POST None (Some ''application/json'') None),
               SessionReq (env (Some ''0xkey'') 2000 uuid1) (http DELETE (Some uuid1) None None),
               Post (env (Some ''0xkey'') 3000 uuid2)
                 (http POST (Some uuid1) (Some ''application/json'') None)]) uuid1 = Undefined
   \<and> uuid2 \<notin> keys_of (transports
        (run [Post (env (Some ''0xkey'') 1000 uuid1) (http POST None (Some ''application/json'') None),
              SessionReq (env (Some ''0xkey'') 2000 uuid1) (http DELETE (Some uuid1) None None)]))"
proof -
  let ?p1 = "Post (env (Some ''0xkey'') 1000 uuid1) (http POST None (Some ''application/json'') None)"
  let ?d = "SessionReq (env (Some ''0xkey'') 2000 uuid1) (http DELETE (Some uuid1) None None)"
  let ?p2 = "Post (env (Some ''0xkey'') 3000 uuid2)
                 (http POST (Some uuid1) (Some ''application/json'') None)"
  have g: "generator_ok [?p1, ?d, ?p2]"
    by (simp add: generator_ok_def env_def is_uuid_def uuid1_def uuid2_def)
  have r1: "run [?p1] = state1 uuid1 1000"
    by (simp add: run_def post_mcp_def post_resolve_def post_create_def createToolkit_def
        or_empty_def post_gate_def accept_negotiation_def setHeader_def init_state_def Let_def env_def http_def
        state1_def session1_def)
  have r2: "transports (run [?p1, ?d]) = DAList.empty"
    using r1
    by (simp add: run_def handleSessionRequest_def handleSessionRequest_try_def accept_gate_def js_get_def
        set_lastActivity_def transport_of_def transport_close_def js_delete_def or_empty_def
        Let_def env_def http_def state1_def session1_def uuid1_def
        alist_eq_iff update.rep_eq delete.rep_eq empty.rep_eq)
  have k1: "uuid1 \<in> keys_of (transports (run [?p1]))"
    by (simp add: r1 state1_def keys_of_update)
  have k2: "uuid1 \<notin> keys_of (transports (run ([?p1] @ [?d])))"
    using r2 by (simp add: keys_of_empty)
  show ?thesis
    using ids_unique_never_revived [OF g, of "[?p1, ?d]" "env (Some ''0xkey'') 3000 uuid2"
        "http POST (Some uuid1) (Some ''application/json'') None" "[]" "[?p1]" "[?d]" "[?p2]" uuid1]
      k1 k2
    by (simp add: env_def)
qed

section \<open>The three objects\<close>

lemma maps_consistent_delete_m: "maps_consistent st \<Longrightarrow> maps_consistent (delete_m k st)"
  by (simp add: maps_consistent_def delete_m_def keys_of_delete)

lemma maps_consistent_transport_close_m:
  "maps_consistent st \<Longrightarrow> maps_consistent (transport_close_m t st)"
  using maps_consistent_delete_m [of "st\<lparr>closed_m := t_ref t # closed_m st\<rparr>"]
  by (auto simp: transport_close_m_def Let_def maps_consistent_def split: option.splits)

lemma maps_consistent_touch_live:
  assumes "maps_consistent st" and "DAList.lookup (sessions st) sid = Some t"
  shows "maps_consistent (touch_m sid now st)"
proof -
  from assms(2) have "sid \<in> keys_of (sessions st)"
    using lookup_None_iff [of "sessions st" sid] by auto
  with assms(1) show ?thesis
    by (auto simp: maps_consistent_def touch_m_def keys_of_update)
qed

text \<open>Outside the inherited names, every handler step keeps the three objects in
  agreement; so do the hook and the cleanup job.\<close>

lemma post_mcp_m_consistent:
  assumes "maps_consistent st" and "or_empty (mcp_session_id req) \<notin> set object_prototype_keys"
  shows "maps_consistent (snd (post_mcp_m a req st))"
proof -
  have s: "snd (post_mcp_m a req st) = fst (post_resolve_m a req st)"
    by (simp add: post_mcp_m_def split: prod.splits sum.splits)
  have c: "maps_consistent (fst (post_create_m a st))"
    using assms(1)
    by (auto simp: post_create_m_cases maps_consistent_def keys_of_update
        split: sum.splits prod.splits)
  show ?thesis
  proof (cases "or_empty (mcp_session_id req) \<noteq> []
                \<and> sessions_get st (or_empty (mcp_session_id req)) \<noteq> NoValue")
    case True
    with assms(2) obtain t where "DAList.lookup (sessions st) (or_empty (mcp_session_id req)) = Some t"
      by (auto simp: sessions_get_def split: option.splits)
    then show ?thesis
      using True maps_consistent_touch_live [OF assms(1)]
      by (simp add: s post_resolve_m_def Let_def)
  next
    case False
    then show ?thesis
      using c by (auto simp: s post_resolve_m_def Let_def)
  qed
qed

lemma handleSessionRequest_m_consistent:
  assumes "maps_consistent st" and "or_empty (mcp_session_id req) \<notin> set object_prototype_keys"
  shows "maps_consistent (snd (handleSessionRequest_m a req st))"
proof (cases "or_empty (mcp_session_id req) = []
              \<or> sessions_get st (or_empty (mcp_session_id req)) = NoValue")
  case True
  then show ?thesis
    using assms(1) by (auto simp: handleSessionRequest_m_def accept_gate_def Let_def)
next
  case False
  with assms(2) obtain t where t: "DAList.lookup (sessions st) (or_empty (mcp_session_id req)) = Some t"
    by (auto simp: sessions_get_def split: option.splits)
  note c = maps_consistent_touch_live [OF assms(1) t, of "date_now a"]
  show ?thesis
    using False c maps_consistent_delete_m [OF maps_consistent_transport_close_m [OF c]]
    by (auto simp: handleSessionRequest_m_def accept_gate_def Let_def sessions_get_live [OF t] as_transport_def
        split: handle_outcome.splits)
qed

lemma sweep_m_consistent:
  assumes "maps_consistent st" and "sweep_m now st = Inr st'"
  shows "maps_consistent st'"
proof -
  have "fold (sweep_id_m now) ks r = Inr s' \<Longrightarrow>
        (\<exists>s. r = Inr s \<and> maps_consistent s) \<Longrightarrow> maps_consistent s'" for ks r s'
  proof (induction ks arbitrary: r)
    case Nil
    then show ?case by auto
  next
    case (Cons k ks)
    from Cons.prems(2) obtain s where s: "r = Inr s" "maps_consistent s" by blast
    from Cons.prems(1) obtain s1 where s1: "sweep_id_m now k r = Inr s1"
      by (cases "sweep_id_m now k r") (auto simp: sweep_m_thrown)
    have "maps_consistent s1"
      using s s1 maps_consistent_delete_m [OF maps_consistent_transport_close_m [OF s(2)]]
      by (auto simp: sweep_id_m_def split: option.splits if_splits)
    with Cons.IH [of "sweep_id_m now k r"] Cons.prems(1) s1 show ?case
      by auto
  qed
  with assms show ?thesis
    by (auto simp: sweep_m_def)
qed

text \<open>
  Claim C9: the three objects have the same key set after every handler step.  The
  reuse branch of both handlers tests \<^verbatim>\<open>sessions[sessionId]\<close>, which finds the
  inherited property for an id such as \<^verbatim>\<open>constructor\<close>, and then writes
  \<^verbatim>\<open>lastActivity[sessionId]\<close>, which creates an own property.  After one such POST
  on a fresh server, \<^verbatim>\<open>lastActivity\<close> has the key \<^verbatim>\<open>constructor\<close> while
  \<^verbatim>\<open>sessions\<close> and \<^verbatim>\<open>toolkits\<close> are empty; the request itself ends in the 500 answer.
\<close>

theorem three_objects_diverge:
  "maps_consistent init_maps
   \<and> answer (fst (post_mcp_m (env (Some ''0xkey'') 1000 uuid1)
        (http POST (Some ''constructor'') (Some ''application/json'') None) init_maps))
      = Json 500 (jsonrpc_error (- 32603) ''Internal server error'')
   \<and> keys_of (sessions (snd (post_mcp_m (env (Some ''0xkey'') 1000 uuid1)
        (http POST (Some ''constructor'') (Some ''application/json'') None) init_maps))) = {}
   \<and> keys_of (toolkits (snd (post_mcp_m (env (Some ''0xkey'') 1000 uuid1)
        (http POST (Some ''constructor'') (Some ''application/json'') None) init_maps))) = {}
   \<and> keys_of (lastActivity_m (snd (post_mcp_m (env (Some ''0xkey'') 1000 uuid1)
        (http POST (Some ''constructor'') (Some ''application/json'') None) init_maps)))
      = {''constructor''}
   \<and> \<not> maps_consistent (snd (post_mcp_m (env (Some ''0xkey'') 1000 uuid1)
        (http POST (Some ''constructor'') (Some ''application/json'') None) init_maps))"
  by (simp add: post_mcp_m_def post_resolve_m_def sessions_get_def as_transport_def touch_m_def
      post_gate_def accept_negotiation_def setHeader_def catch_fault_def or_empty_def Let_def env_def http_def
      init_maps_def object_prototype_keys_def maps_consistent_def keys_of_update keys_of_empty)

section \<open>Accept negotiation\<close>






end
